theory Spec2Isabelle
  imports Main "HOL-Library.Word"
begin

section \<open>JavaScript strings and values\<close>

text \<open>
  A JavaScript string is a sequence of UTF-16 code units; \<open>.length\<close> counts code units.
  String literals of the source are ASCII and are written with \<open>js\<close>.
\<close>

type_synonym char16 = "16 word"
type_synonym jsstring = "char16 list"

definition js :: "string \<Rightarrow> jsstring" where
  "js s = map (\<lambda>c. of_nat (of_char c)) s"

text \<open>
  \<open>String.prototype.trim\<close> strips the code units of WhiteSpace and LineTerminator
  (ECMA-262) from both ends.
\<close>

definition isWhiteSpace :: "char16 \<Rightarrow> bool" where
  "isWhiteSpace c = (c \<in> set [0x09, 0x0A, 0x0B, 0x0C, 0x0D, 0x20, 0xA0, 0x1680,
     0x2000, 0x2001, 0x2002, 0x2003, 0x2004, 0x2005, 0x2006, 0x2007, 0x2008, 0x2009, 0x200A,
     0x2028, 0x2029, 0x202F, 0x205F, 0x3000, 0xFEFF])"

definition trim :: "jsstring \<Rightarrow> jsstring" where
  "trim s = rev (dropWhile isWhiteSpace (rev (dropWhile isWhiteSpace s)))"

text \<open>
  The declared field types are \<open>string\<close> and \<open>string | undefined\<close>, but the validators
  test for \<open>undefined\<close>, \<open>null\<close> and non-strings at run time, so a field holds any of
  the values below. An absent property reads as \<open>undefined\<close>. Numbers are restricted to
  integers.
\<close>

datatype jsval = JUndefined | JNull | JString jsstring | JNumber int | JBoolean bool

fun truthy :: "jsval \<Rightarrow> bool" where
  "truthy JUndefined = False"
| "truthy JNull = False"
| "truthy (JString s) = (s \<noteq> [])"
| "truthy (JNumber n) = (n \<noteq> 0)"
| "truthy (JBoolean b) = b"

text \<open>
  Thrown values: \<open>new Error(message)\<close>, and the TypeError the engine raises when
  \<open>.trim()\<close> is called on a value that has no such method.
\<close>

datatype error = Error jsstring | TypeError

fun message :: "error \<Rightarrow> jsstring" where
  "message (Error m) = m"
| "message TypeError = js ''trim is not a function''"

text \<open>\<open>v.trim()\<close> for a value \<open>v\<close>.\<close>

fun callTrim :: "jsval \<Rightarrow> error + jsstring" where
  "callTrim (JString s) = Inr (trim s)"
| "callTrim _ = Inl TypeError"

section \<open>Entity and validation module\<close>

record CreateBlacklistEntryInput =
  in_identifier :: jsval
  in_firstName :: jsval
  in_lastName :: jsval
  in_createdBy :: jsval

record SearchCriteria =
  sc_identifier :: jsval
  sc_firstName :: jsval
  sc_lastName :: jsval

record ValidationResult =
  isValid :: bool
  errors :: "string list"

definition validateBlacklistEntry :: "CreateBlacklistEntryInput \<Rightarrow> ValidationResult" where
  "validateBlacklistEntry input =
    (let errors = [];
         errors = errors @
           (case in_identifier input of
              JString s \<Rightarrow>
                if length (trim s) = 0 then [''Identifier cannot be empty'']
                else if length s > 255 then [''Identifier cannot exceed 255 characters'']
                else []
            | _ \<Rightarrow> [''Identifier is required and must be a string'']);
         errors = errors @
           (case in_createdBy input of
              JString s \<Rightarrow>
                if length (trim s) = 0 then [''CreatedBy cannot be empty'']
                else if length s > 20 then [''CreatedBy cannot exceed 20 characters'']
                else []
            | _ \<Rightarrow> [''CreatedBy is required and must be a string'']);
         errors = errors @
           (case in_firstName input of
              JUndefined \<Rightarrow> []
            | JString s \<Rightarrow>
                if length s > 100 then [''FirstName cannot exceed 100 characters''] else []
            | _ \<Rightarrow> [''FirstName must be a string'']);
         errors = errors @
           (case in_lastName input of
              JUndefined \<Rightarrow> []
            | JString s \<Rightarrow>
                if length s > 100 then [''LastName cannot exceed 100 characters''] else []
            | _ \<Rightarrow> [''LastName must be a string''])
     in \<lparr>isValid = (length errors = 0), errors = errors\<rparr>)"

definition sanitizeBlacklistEntryInput ::
  "CreateBlacklistEntryInput \<Rightarrow> error + CreateBlacklistEntryInput" where
  "sanitizeBlacklistEntryInput input =
    (case (case in_identifier input of
             JUndefined \<Rightarrow> Inr [] | JNull \<Rightarrow> Inr []
           | v \<Rightarrow> (case callTrim v of Inl e \<Rightarrow> Inl e
                    | Inr t \<Rightarrow> Inr (if t \<noteq> [] then t else []))) of
       Inl e \<Rightarrow> Inl e
     | Inr ident \<Rightarrow>
    (case (case in_createdBy input of
             JUndefined \<Rightarrow> Inr [] | JNull \<Rightarrow> Inr []
           | v \<Rightarrow> (case callTrim v of Inl e \<Rightarrow> Inl e
                    | Inr t \<Rightarrow> Inr (if t \<noteq> [] then t else []))) of
       Inl e \<Rightarrow> Inl e
     | Inr creator \<Rightarrow>
    (let result = \<lparr>in_identifier = JString ident, in_firstName = JUndefined,
                     in_lastName = JUndefined, in_createdBy = JString creator\<rparr>
     in
    (case (if truthy (in_firstName input)
           then (case callTrim (in_firstName input) of Inl e \<Rightarrow> Inl e
                 | Inr t \<Rightarrow> Inr (if t \<noteq> [] then result\<lparr>in_firstName := JString t\<rparr> else result))
           else Inr result) of
       Inl e \<Rightarrow> Inl e
     | Inr result \<Rightarrow>
    (if truthy (in_lastName input)
     then (case callTrim (in_lastName input) of Inl e \<Rightarrow> Inl e
           | Inr t \<Rightarrow> Inr (if t \<noteq> [] then result\<lparr>in_lastName := JString t\<rparr> else result))
     else Inr result)))))"

definition validateSearchCriteria :: "SearchCriteria \<Rightarrow> ValidationResult" where
  "validateSearchCriteria criteria =
    (let errors = [];
         errors = errors @
           (if \<not> truthy (sc_identifier criteria) \<and> \<not> truthy (sc_firstName criteria)
               \<and> \<not> truthy (sc_lastName criteria)
            then [''At least one search criterion must be provided (identifier, firstName, or lastName)'']
            else []);
         errors = errors @
           (case sc_identifier criteria of
              JUndefined \<Rightarrow> []
            | JString s \<Rightarrow>
                if length (trim s) = 0 then [''Identifier cannot be empty when provided'']
                else if length s > 255 then [''Identifier cannot exceed 255 characters'']
                else []
            | _ \<Rightarrow> [''Identifier must be a string'']);
         errors = errors @
           (case sc_firstName criteria of
              JUndefined \<Rightarrow> []
            | JString s \<Rightarrow>
                if length (trim s) = 0 then [''FirstName cannot be empty when provided'']
                else if length s > 100 then [''FirstName cannot exceed 100 characters'']
                else []
            | _ \<Rightarrow> [''FirstName must be a string'']);
         errors = errors @
           (case sc_lastName criteria of
              JUndefined \<Rightarrow> []
            | JString s \<Rightarrow>
                if length (trim s) = 0 then [''LastName cannot be empty when provided'']
                else if length s > 100 then [''LastName cannot exceed 100 characters'']
                else []
            | _ \<Rightarrow> [''LastName must be a string''])
     in \<lparr>isValid = (length errors = 0), errors = errors\<rparr>)"

definition sanitizeSearchCriteria :: "SearchCriteria \<Rightarrow> error + SearchCriteria" where
  "sanitizeSearchCriteria criteria =
    (let sanitized = \<lparr>sc_identifier = JUndefined, sc_firstName = JUndefined,
                        sc_lastName = JUndefined\<rparr>
     in
    (case (if truthy (sc_identifier criteria)
           then (case callTrim (sc_identifier criteria) of Inl e \<Rightarrow> Inl e
                 | Inr t \<Rightarrow> Inr (if t \<noteq> [] then sanitized\<lparr>sc_identifier := JString t\<rparr>
                                  else sanitized))
           else Inr sanitized) of
       Inl e \<Rightarrow> Inl e
     | Inr sanitized \<Rightarrow>
    (case (if truthy (sc_firstName criteria)
           then (case callTrim (sc_firstName criteria) of Inl e \<Rightarrow> Inl e
                 | Inr t \<Rightarrow> Inr (if t \<noteq> [] then sanitized\<lparr>sc_firstName := JString t\<rparr>
                                  else sanitized))
           else Inr sanitized) of
       Inl e \<Rightarrow> Inl e
     | Inr sanitized \<Rightarrow>
    (if truthy (sc_lastName criteria)
     then (case callTrim (sc_lastName criteria) of Inl e \<Rightarrow> Inl e
           | Inr t \<Rightarrow> Inr (if t \<noteq> [] then sanitized\<lparr>sc_lastName := JString t\<rparr>
                            else sanitized))
     else Inr sanitized))))"

text \<open>Sequencing of two fallible steps: the second runs on the value the first returned.\<close>

definition andThen :: "error + 'a \<Rightarrow> ('a \<Rightarrow> error + 'b) \<Rightarrow> error + 'b" where
  "andThen r f = (case r of Inl e \<Rightarrow> Inl e | Inr x \<Rightarrow> f x)"

text \<open>
  What sanitizing does to one field. An optional field is kept, trimmed, when it is a
  string with something left after trimming, and is absent otherwise. A required field of
  a create input is always present: trimmed, and the empty string when nothing is left.
\<close>

definition trimmed :: "jsstring \<Rightarrow> bool" where
  "trimmed s = (case s of [] \<Rightarrow> True | _ \<Rightarrow> \<not> isWhiteSpace (hd s) \<and> \<not> isWhiteSpace (last s))"

definition optionalSanitized :: "jsval \<Rightarrow> jsval" where
  "optionalSanitized v =
     (case v of JString s \<Rightarrow> if trim s = [] then JUndefined else JString (trim s)
      | _ \<Rightarrow> JUndefined)"

definition requiredSanitized :: "jsval \<Rightarrow> jsval" where
  "requiredSanitized v = (case v of JString s \<Rightarrow> JString (trim s) | _ \<Rightarrow> JString [])"

definition declaredType :: "jsval \<Rightarrow> bool" where
  "declaredType v = (case v of JNumber n \<Rightarrow> False | JBoolean b \<Rightarrow> False | _ \<Rightarrow> True)"

section \<open>Error classification (ErrorHandler)\<close>

text \<open>
  \<open>categorizeError\<close> tests the error message against a table of case-insensitive regular
  expressions, in insertion order; the first that matches decides \<open>retryable\<close>, and an
  unmatched error is retryable. Every alternative of every pattern is a literal, or two
  literals joined by \<open>.*\<close> (any run of code units other than line terminators). The
  literals are kept in lower case and compared with the lower-cased message.
\<close>

definition lower :: "char16 \<Rightarrow> char16" where
  "lower c = (if c \<in> set [0x41, 0x42, 0x43, 0x44, 0x45, 0x46, 0x47, 0x48, 0x49, 0x4A, 0x4B,
       0x4C, 0x4D, 0x4E, 0x4F, 0x50, 0x51, 0x52, 0x53, 0x54, 0x55, 0x56, 0x57, 0x58, 0x59, 0x5A]
     then c + 0x20 else c)"

definition lineTerminator :: "char16 \<Rightarrow> bool" where
  "lineTerminator c = (c \<in> set [0x0A, 0x0D, 0x2028, 0x2029])"

fun startsWith :: "'a list \<Rightarrow> 'a list \<Rightarrow> bool" where
  "startsWith s [] = True"
| "startsWith [] (p # ps) = False"
| "startsWith (c # cs) (p # ps) = (c = p \<and> startsWith cs ps)"

text \<open>\<open>s.includes(sub)\<close>\<close>

fun stringIncludes :: "'a list \<Rightarrow> 'a list \<Rightarrow> bool" where
  "stringIncludes [] sub = (sub = [])"
| "stringIncludes (c # cs) sub = (startsWith (c # cs) sub \<or> stringIncludes cs sub)"

fun afterNoBreak :: "jsstring \<Rightarrow> jsstring \<Rightarrow> bool" where
  "afterNoBreak [] b = (b = [])"
| "afterNoBreak (c # cs) b = (startsWith (c # cs) b \<or> (\<not> lineTerminator c \<and> afterNoBreak cs b))"

fun includesThen :: "jsstring \<Rightarrow> jsstring \<Rightarrow> jsstring \<Rightarrow> bool" where
  "includesThen [] a b = (a = [] \<and> b = [])"
| "includesThen (c # cs) a b =
     ((startsWith (c # cs) a \<and> afterNoBreak (drop (length a) (c # cs)) b) \<or> includesThen cs a b)"

datatype alternative = Lit string | Then string string

fun matchesAlternative :: "jsstring \<Rightarrow> alternative \<Rightarrow> bool" where
  "matchesAlternative m (Lit a) = stringIncludes (map lower m) (js a)"
| "matchesAlternative m (Then a b) = includesThen (map lower m) (js a) (js b)"

definition errorPatterns :: "(alternative list \<times> bool) list" where
  "errorPatterns =
    [([Lit ''econnrefused'', Lit ''enotfound'', Lit ''etimedout'', Then ''connection'' ''refused''], True),
     ([Lit ''timeout'', Then ''query'' ''timeout''], True),
     ([Then ''duplicate'' ''entry'', Then ''already'' ''exists''], False),
     ([Then ''validation'' ''failed'', Then ''invalid'' ''input'', Then ''required'' ''field''], False),
     ([Then ''permission'' ''denied'', Then ''access'' ''denied'', Lit ''unauthorized''], False),
     ([Then ''discord'' ''api'', Then ''rate'' ''limit'', Then ''interaction'' ''failed''], True),
     ([Then ''network'' ''error'', Then ''connection'' ''lost'', Then ''socket'' ''hang''], True),
     ([Then ''missing'' ''environment'', Then ''configuration'' ''error'', Then ''invalid'' ''config''], False)]"

text \<open>\<open>handleDatabaseError(error, \<dots>).shouldRetry\<close>; the logging it does is left out.\<close>

definition shouldRetry :: "error \<Rightarrow> bool" where
  "shouldRetry e =
     (case find (\<lambda>(alts, r). list_ex (matchesAlternative (message e)) alts) errorPatterns of
        Some (alts, r) \<Rightarrow> r
      | None \<Rightarrow> True)"

section \<open>The database server\<close>

text \<open>
  Table \<open>blacklist_entries\<close>: \<open>id INT PRIMARY KEY AUTO_INCREMENT\<close>, \<open>identifier\<close> and
  \<open>created_by\<close> not null, the two name columns nullable, \<open>created_at\<close> defaulting to the
  current timestamp. The table is created with \<open>COLLATE=utf8mb4_unicode_ci\<close>; the
  collation decides which characters \<open>=\<close> and \<open>LIKE\<close> take as equal, and is kept as a
  relation on code units in the state of the database.
\<close>

record row =
  r_id :: int
  r_identifier :: jsstring
  r_first_name :: "jsstring option"
  r_last_name :: "jsstring option"
  r_created_at :: nat
  r_created_by :: jsstring

record database =
  rows :: "row list"
  autoIncrement :: int
  clock :: nat
  collation :: "char16 \<Rightarrow> char16 \<Rightarrow> bool"

text \<open>
  The statements the repository issues, with their parameters. \<open>SelectWhere\<close> is the text
  \<open>SELECT \<dots> WHERE 1=1 [AND identifier = ?] [AND first_name LIKE ?] [AND last_name LIKE ?]
  ORDER BY created_at DESC\<close>; a predicate that was not appended is \<open>None\<close>.
\<close>

datatype statement =
    Insert jsstring "jsstring option" "jsstring option" jsstring
  | SelectWhere "jsstring option" "jsstring option" "jsstring option"
  | SelectById int
  | DeleteById int
  | CountByIdentifier jsstring

datatype result = Rows "row list" | Header int nat | Count nat

text \<open>\<open>=\<close> on strings: trailing spaces are ignored (PAD SPACE), characters compare under the collation.\<close>

definition padSpace :: "jsstring \<Rightarrow> jsstring" where
  "padSpace s = rev (dropWhile (\<lambda>c. c = 0x20) (rev s))"

definition sqlEq :: "(char16 \<Rightarrow> char16 \<Rightarrow> bool) \<Rightarrow> jsstring \<Rightarrow> jsstring \<Rightarrow> bool" where
  "sqlEq eq s t = list_all2 eq (padSpace s) (padSpace t)"

text \<open>
  \<open>LIKE\<close>: in the pattern \<open>%\<close> (0x25) stands for any run of characters, \<open>_\<close> (0x5F) for
  any one character, and the backslash (0x5C) takes the next pattern character literally;
  other characters compare under the collation.
\<close>

fun sqlLike :: "(char16 \<Rightarrow> char16 \<Rightarrow> bool) \<Rightarrow> jsstring \<Rightarrow> jsstring \<Rightarrow> bool" where
  "sqlLike eq [] s = (s = [])"
| "sqlLike eq (p # ps) [] = (p = 0x25 \<and> sqlLike eq ps [])"
| "sqlLike eq (p # ps) (c # cs) =
     (if p = 0x25 then sqlLike eq ps (c # cs) \<or> sqlLike eq (p # ps) cs
      else if p = 0x5F then sqlLike eq ps cs
      else if p = 0x5C then
        (case ps of [] \<Rightarrow> eq p c \<and> cs = [] | x # xs \<Rightarrow> eq x c \<and> sqlLike eq xs cs)
      else eq p c \<and> sqlLike eq ps cs)"

definition matchesWhere ::
  "(char16 \<Rightarrow> char16 \<Rightarrow> bool) \<Rightarrow> jsstring option \<Rightarrow> jsstring option \<Rightarrow> jsstring option \<Rightarrow> row \<Rightarrow> bool" where
  "matchesWhere eq ident firstPat lastPat r =
     ((case ident of None \<Rightarrow> True | Some i \<Rightarrow> sqlEq eq (r_identifier r) i) \<and>
      (case firstPat of None \<Rightarrow> True
       | Some p \<Rightarrow> (case r_first_name r of None \<Rightarrow> False | Some n \<Rightarrow> sqlLike eq p n)) \<and>
      (case lastPat of None \<Rightarrow> True
       | Some p \<Rightarrow> (case r_last_name r of None \<Rightarrow> False | Some n \<Rightarrow> sqlLike eq p n)))"

definition orderByCreatedAtDesc :: "row list \<Rightarrow> row list" where
  "orderByCreatedAtDesc rs = rev (sort_key r_created_at rs)"

fun execute :: "statement \<Rightarrow> database \<Rightarrow> result \<times> database" where
  "execute (Insert ident firstPat lastPat creator) db =
     (Header (autoIncrement db) 1,
      db\<lparr>rows := rows db @
            [\<lparr>r_id = autoIncrement db, r_identifier = ident, r_first_name = firstPat,
              r_last_name = lastPat, r_created_at = clock db, r_created_by = creator\<rparr>],
         autoIncrement := autoIncrement db + 1\<rparr>)"
| "execute (SelectWhere ident firstPat lastPat) db =
     (Rows (orderByCreatedAtDesc (filter (matchesWhere (collation db) ident firstPat lastPat) (rows db))), db)"
| "execute (SelectById n) db = (Rows (filter (\<lambda>r. r_id r = n) (rows db)), db)"
| "execute (DeleteById n) db =
     (Header 0 (length (filter (\<lambda>r. r_id r = n) (rows db))),
      db\<lparr>rows := filter (\<lambda>r. r_id r \<noteq> n) (rows db)\<rparr>)"
| "execute (CountByIdentifier ident) db =
     (Count (length (filter (\<lambda>r. sqlEq (collation db) (r_identifier r) ident) (rows db))), db)"

section \<open>Connection manager (DatabaseConnection)\<close>

text \<open>
  The driver and the network are the environment. Every call into the driver that can
  fail takes its outcome from a schedule held in the state, one entry per call; an
  exhausted schedule means success. Connections are numbered as the pool hands them out.
  The pool is instrumented: \<open>held\<close> lists the connections handed out and not yet released,
  and \<open>doubleRelease\<close> records a release of a connection that is not held. The trace
  records the calls made to the driver and the pauses. Logger calls carry no control flow
  and are left out, except the error logged when a rollback fails.
\<close>

datatype outcome = Succeeds | Fails error

datatype event =
    CreatePool | EndPool | Acquire nat | Ping nat | Release nat
  | Execute nat statement | BeginTransaction nat | Invoke nat | Commit nat | Rollback nat
  | Sleep nat | LogError string

record world =
  pool :: bool
  reconnectAttempts :: nat
  database :: database
  outcomes :: "outcome list"
  nextConnection :: nat
  held :: "nat list"
  doubleRelease :: bool
  trace :: "event list"

definition maxReconnectAttempts :: nat where
  "maxReconnectAttempts = 5"

definition reconnectDelay :: nat where
  "reconnectDelay = 1000"

definition nextOutcome :: "world \<Rightarrow> outcome \<times> world" where
  "nextOutcome w = (case outcomes w of [] \<Rightarrow> (Succeeds, w) | out # rest \<Rightarrow> (out, w\<lparr>outcomes := rest\<rparr>))"

definition emit :: "event \<Rightarrow> world \<Rightarrow> world" where
  "emit ev w = w\<lparr>trace := trace w @ [ev]\<rparr>"

text \<open>A call into the driver: recorded, then it succeeds or throws.\<close>

definition driverCall :: "event \<Rightarrow> world \<Rightarrow> (error + unit) \<times> world" where
  "driverCall ev w =
     (case nextOutcome (emit ev w) of
        (Fails e, w1) \<Rightarrow> (Inl e, w1)
      | (Succeeds, w1) \<Rightarrow> (Inr (), w1))"

text \<open>\<open>pool.getConnection()\<close> and \<open>connection.release()\<close>\<close>

definition poolGetConnection :: "world \<Rightarrow> (error + nat) \<times> world" where
  "poolGetConnection w =
     (case nextOutcome w of
        (Fails e, w1) \<Rightarrow> (Inl e, w1)
      | (Succeeds, w1) \<Rightarrow>
          (let c = nextConnection w1
           in (Inr c, emit (Acquire c) (w1\<lparr>nextConnection := c + 1, held := c # held w1\<rparr>))))"

definition release :: "nat \<Rightarrow> world \<Rightarrow> world" where
  "release c w =
     emit (Release c)
       (if c \<in> set (held w) then w\<lparr>held := remove1 c (held w)\<rparr> else w\<lparr>doubleRelease := True\<rparr>)"

text \<open>\<open>connection.execute(sql, params)\<close>\<close>

definition connectionExecute :: "nat \<Rightarrow> statement \<Rightarrow> world \<Rightarrow> (error + result) \<times> world" where
  "connectionExecute c stmt w =
     (case driverCall (Execute c stmt) w of
        (Inl e, w1) \<Rightarrow> (Inl e, w1)
      | (Inr u, w1) \<Rightarrow>
          (case execute stmt (database w1) of (res, db) \<Rightarrow> (Inr res, w1\<lparr>database := db\<rparr>)))"

definition testConnection :: "world \<Rightarrow> (error + unit) \<times> world" where
  "testConnection w =
     (if \<not> pool w then (Inl (Error (js ''Database pool not initialized'')), w)
      else
        (case poolGetConnection w of
           (Inl e, w1) \<Rightarrow> (Inl e, w1)
         | (Inr connection, w1) \<Rightarrow>
             (case driverCall (Ping connection) w1 of
                (Inl e, w2) \<Rightarrow> (Inl e, release connection w2)
              | (Inr u, w2) \<Rightarrow> (Inr (), release connection w2))))"

function decimal :: "nat \<Rightarrow> string" where
  "decimal n =
     (if n < 10 then [''0123456789'' ! n]
      else decimal (n div 10) @ [''0123456789'' ! (n mod 10)])"
  by pat_completeness auto
termination
  by (relation "measure id") auto

function connect :: "world \<Rightarrow> (error + unit) \<times> world"
  and handleConnectionError :: "error \<Rightarrow> world \<Rightarrow> (error + unit) \<times> world" where
  "connect w =
     (if pool w then (Inr (), w)
      else
        (case driverCall CreatePool w of
           (Inl error, w1) \<Rightarrow>
             (if shouldRetry error then handleConnectionError error w1 else (Inl error, w1))
         | (Inr u, w1) \<Rightarrow>
             (case testConnection (w1\<lparr>pool := True\<rparr>) of
                (Inl error, w2) \<Rightarrow>
                  (if shouldRetry error then handleConnectionError error w2 else (Inl error, w2))
              | (Inr u, w2) \<Rightarrow> (Inr (), w2\<lparr>reconnectAttempts := 0\<rparr>))))"
| "handleConnectionError error w =
     (if reconnectAttempts w \<ge> maxReconnectAttempts
      then (Inl (Error (js ''Failed to connect to database after '' @ js (decimal maxReconnectAttempts)
                        @ js '' attempts: '' @ message error)), w)
      else
        (let w1 = w\<lparr>reconnectAttempts := reconnectAttempts w + 1\<rparr>;
             delay = reconnectDelay * 2 ^ (reconnectAttempts w1 - 1)
         in connect (emit (Sleep delay) w1)))"
  by pat_completeness auto
termination
proof (relation "measure (\<lambda>x. case x of
          Inl w \<Rightarrow> 2 * (6 - reconnectAttempts w) + 1
        | Inr (e, w) \<Rightarrow> 2 * (6 - reconnectAttempts w))")
  show "wf (measure (\<lambda>x. case x of
          Inl w \<Rightarrow> 2 * (6 - reconnectAttempts w) + 1
        | Inr (e, w) \<Rightarrow> 2 * (6 - reconnectAttempts w)))"
    by simp
next
  fix w :: world and x error w1
  assume "(x, w1) = driverCall CreatePool w"
  then have "reconnectAttempts w1 = reconnectAttempts w"
    by (auto simp: driverCall_def nextOutcome_def emit_def split: list.splits outcome.splits)
  then show "(Inr (error, w1), Inl w) \<in> measure (\<lambda>x. case x of
          Inl w \<Rightarrow> 2 * (6 - reconnectAttempts w) + 1
        | Inr (e, w) \<Rightarrow> 2 * (6 - reconnectAttempts w))"
    by simp
next
  fix w :: world and x w1 u xa error w2
  assume a: "(x, w1) = driverCall CreatePool w"
    and b: "(xa, w2) = testConnection (w1\<lparr>pool := True\<rparr>)"
  from a have "reconnectAttempts w1 = reconnectAttempts w"
    by (auto simp: driverCall_def nextOutcome_def emit_def split: list.splits outcome.splits)
  moreover from b have "reconnectAttempts w2 = reconnectAttempts w1"
    by (auto simp: testConnection_def poolGetConnection_def driverCall_def nextOutcome_def
        emit_def release_def Let_def split: list.splits outcome.splits if_splits)
  ultimately show "(Inr (error, w2), Inl w) \<in> measure (\<lambda>x. case x of
          Inl w \<Rightarrow> 2 * (6 - reconnectAttempts w) + 1
        | Inr (e, w) \<Rightarrow> 2 * (6 - reconnectAttempts w))"
    by simp
next
  fix error :: error and w :: world and w1 delay
  assume "\<not> maxReconnectAttempts \<le> reconnectAttempts w"
    and "w1 = w\<lparr>reconnectAttempts := reconnectAttempts w + 1\<rparr>"
  then show "(Inl (emit (Sleep delay) w1), Inr (error, w)) \<in> measure (\<lambda>x. case x of
          Inl w \<Rightarrow> 2 * (6 - reconnectAttempts w) + 1
        | Inr (e, w) \<Rightarrow> 2 * (6 - reconnectAttempts w))"
    by (simp add: emit_def maxReconnectAttempts_def)
qed

declare connect.simps [simp del] handleConnectionError.simps [simp del]

definition disconnect :: "world \<Rightarrow> (error + unit) \<times> world" where
  "disconnect w =
     (if pool w
      then (case driverCall EndPool w of
              (Inl error, w1) \<Rightarrow> (Inl error, w1)
            | (Inr u, w1) \<Rightarrow> (Inr (), w1\<lparr>pool := False\<rparr>))
      else (Inr (), w))"

definition reconnect :: "world \<Rightarrow> (error + unit) \<times> world" where
  "reconnect w =
     (case disconnect w of
        (Inl error, w1) \<Rightarrow> (Inl error, w1)
      | (Inr u, w1) \<Rightarrow> connect w1)"

definition getConnection :: "world \<Rightarrow> (error + nat) \<times> world" where
  "getConnection w =
     (case (if \<not> pool w then connect w else (Inr (), w)) of
        (Inl error, w1) \<Rightarrow> (Inl error, w1)
      | (Inr u, w1) \<Rightarrow>
          (if \<not> pool w1 then (Inl (Error (js ''Database connection pool not available'')), w1)
           else
             (case poolGetConnection w1 of
                (Inr connection, w2) \<Rightarrow> (Inr connection, w2)
              | (Inl error, w2) \<Rightarrow>
                  (if shouldRetry error
                   then
                     (case reconnect w2 of
                        (Inl error', w3) \<Rightarrow> (Inl error', w3)
                      | (Inr u, w3) \<Rightarrow>
                          (if \<not> pool w3 then (Inl (Error (js ''Failed to reconnect to database'')), w3)
                           else poolGetConnection w3))
                   else (Inl error, w2)))))"

definition query :: "statement \<Rightarrow> world \<Rightarrow> (error + result) \<times> world" where
  "query sql w =
     (case getConnection w of
        (Inl error, w1) \<Rightarrow> (Inl error, w1)
      | (Inr connection, w1) \<Rightarrow>
          (case connectionExecute connection sql w1 of
             (Inr res, w2) \<Rightarrow> (Inr res, release connection w2)
           | (Inl error, w2) \<Rightarrow> (Inl error, release connection w2)))"

text \<open>
  The callback of a transaction is given the connection; it works on the database through
  it and returns a value or throws. A rollback that succeeds undoes the row changes made
  since the transaction began.
\<close>

definition rollbackThenThrow :: "nat \<Rightarrow> row list \<Rightarrow> error \<Rightarrow> world \<Rightarrow> (error + 'a) \<times> world" where
  "rollbackThenThrow connection saved error w =
     (case driverCall (Rollback connection) w of
        (Inr u, w1) \<Rightarrow> (Inl error, w1\<lparr>database := (database w1)\<lparr>rows := saved\<rparr>\<rparr>)
      | (Inl rollbackError, w1) \<Rightarrow> (Inl error, emit (LogError ''Failed to rollback transaction'') w1))"

definition transaction ::
  "(nat \<Rightarrow> database \<Rightarrow> (error + 'a) \<times> database) \<Rightarrow> world \<Rightarrow> (error + 'a) \<times> world" where
  "transaction callback w =
     (case getConnection w of
        (Inl error, w1) \<Rightarrow> (Inl error, w1)
      | (Inr connection, w1) \<Rightarrow>
          (case
             (case driverCall (BeginTransaction connection) w1 of
                (Inl error, w2) \<Rightarrow> rollbackThenThrow connection (rows (database w1)) error w2
              | (Inr u, w2) \<Rightarrow>
                  (case callback connection (database w2) of
                     (Inl error, db) \<Rightarrow>
                       rollbackThenThrow connection (rows (database w1)) error
                         (emit (Invoke connection) w2\<lparr>database := db\<rparr>)
                   | (Inr result, db) \<Rightarrow>
                       (case driverCall (Commit connection) (emit (Invoke connection) w2\<lparr>database := db\<rparr>) of
                          (Inl error, w3) \<Rightarrow> rollbackThenThrow connection (rows (database w1)) error w3
                        | (Inr u, w3) \<Rightarrow> (Inr result, w3)))) of
             (r, w4) \<Rightarrow> (r, release connection w4)))"

section \<open>Repository (BlacklistRepository)\<close>

record BlacklistEntry =
  e_id :: int
  e_identifier :: jsstring
  e_firstName :: jsval
  e_lastName :: jsval
  e_createdAt :: nat
  e_createdBy :: jsstring

definition mapRowToEntry :: "row \<Rightarrow> BlacklistEntry" where
  "mapRowToEntry r =
     (let entry = \<lparr>e_id = r_id r, e_identifier = r_identifier r, e_firstName = JUndefined,
                    e_lastName = JUndefined, e_createdAt = r_created_at r,
                    e_createdBy = r_created_by r\<rparr>;
          entry = (case r_first_name r of
                     Some n \<Rightarrow> if n \<noteq> [] then entry\<lparr>e_firstName := JString n\<rparr> else entry
                   | None \<Rightarrow> entry);
          entry = (case r_last_name r of
                     Some n \<Rightarrow> if n \<noteq> [] then entry\<lparr>e_lastName := JString n\<rparr> else entry
                   | None \<Rightarrow> entry)
      in entry)"

text \<open>\<open>errors.join(sep)\<close>\<close>

fun joinWith :: "string \<Rightarrow> string list \<Rightarrow> string" where
  "joinWith sep [] = []"
| "joinWith sep [x] = x"
| "joinWith sep (x # y # ys) = x @ sep @ joinWith sep (y # ys)"

text \<open>
  Binding a field as a statement parameter. After validation the identifier and createdBy
  are strings, so the second equation of \<open>stringOf\<close> is never reached. \<open>orNull\<close> is
  \<open>value || null\<close> for a value that is a string or undefined.
\<close>

fun stringOf :: "jsval \<Rightarrow> jsstring" where
  "stringOf (JString s) = s"
| "stringOf v = []"

definition orNull :: "jsval \<Rightarrow> jsstring option" where
  "orNull v = (if truthy v then Some (stringOf v) else None)"

text \<open>
  Reading a result. The server answers each statement with the matching kind of result, so
  the default equations are never reached.
\<close>

fun insertId :: "result \<Rightarrow> int" where
  "insertId (Header i n) = i"
| "insertId res = 0"

fun affectedRows :: "result \<Rightarrow> nat" where
  "affectedRows (Header i n) = n"
| "affectedRows res = 0"

fun rowsOf :: "result \<Rightarrow> row list" where
  "rowsOf (Rows rs) = rs"
| "rowsOf res = []"

fun countOf :: "result \<Rightarrow> nat" where
  "countOf (Count n) = n"
| "countOf res = 0"

definition create :: "CreateBlacklistEntryInput \<Rightarrow> world \<Rightarrow> (error + int) \<times> world" where
  "create entry w =
     (case sanitizeBlacklistEntryInput entry of
        Inl typeError \<Rightarrow> (Inl typeError, w)
      | Inr sanitizedEntry \<Rightarrow>
          (let validation = validateBlacklistEntry sanitizedEntry
           in if \<not> isValid validation
              then (Inl (Error (js ''Invalid blacklist entry: ''
                                @ js (joinWith '', '' (errors validation)))), w)
              else
                (case query (Insert (stringOf (in_identifier sanitizedEntry))
                                    (orNull (in_firstName sanitizedEntry))
                                    (orNull (in_lastName sanitizedEntry))
                                    (stringOf (in_createdBy sanitizedEntry))) w of
                   (Inr res, w1) \<Rightarrow> (Inr (insertId res), w1)
                 | (Inl error, w1) \<Rightarrow> (Inl (Error (js ''Failed to create blacklist entry'')), w1))))"

definition search :: "SearchCriteria \<Rightarrow> world \<Rightarrow> (error + BlacklistEntry list) \<times> world" where
  "search criteria w =
     (case sanitizeSearchCriteria criteria of
        Inl typeError \<Rightarrow> (Inl typeError, w)
      | Inr sanitizedCriteria \<Rightarrow>
          (let validation = validateSearchCriteria sanitizedCriteria
           in if \<not> isValid validation
              then (Inl (Error (js ''Invalid search criteria: ''
                                @ js (joinWith '', '' (errors validation)))), w)
              else
                (let ident = (if truthy (sc_identifier sanitizedCriteria)
                              then Some (stringOf (sc_identifier sanitizedCriteria)) else None);
                     firstPat = (if truthy (sc_firstName sanitizedCriteria)
                                 then Some ([0x25] @ stringOf (sc_firstName sanitizedCriteria) @ [0x25])
                                 else None);
                     lastPat = (if truthy (sc_lastName sanitizedCriteria)
                                then Some ([0x25] @ stringOf (sc_lastName sanitizedCriteria) @ [0x25])
                                else None)
                 in case query (SelectWhere ident firstPat lastPat) w of
                      (Inr res, w1) \<Rightarrow> (Inr (map mapRowToEntry (rowsOf res)), w1)
                    | (Inl error, w1) \<Rightarrow>
                        (Inl (Error (js ''Failed to search blacklist entries'')), w1))))"

text \<open>An id is a number; the model takes integers, for which the guard is \<open>id \<le> 0\<close>.\<close>

definition findById :: "int \<Rightarrow> world \<Rightarrow> (error + BlacklistEntry option) \<times> world" where
  "findById n w =
     (if n \<le> 0 then (Inl (Error (js ''ID must be a positive number'')), w)
      else
        (case query (SelectById n) w of
           (Inr res, w1) \<Rightarrow>
             (case rowsOf res of
                r # rs \<Rightarrow> (Inr (Some (mapRowToEntry r)), w1)
              | [] \<Rightarrow> (Inr None, w1))
         | (Inl error, w1) \<Rightarrow> (Inl (Error (js ''Failed to find blacklist entry'')), w1)))"

definition deleteById :: "int \<Rightarrow> world \<Rightarrow> (error + bool) \<times> world" where
  "deleteById n w =
     (if n \<le> 0 then (Inl (Error (js ''ID must be a positive number'')), w)
      else
        (case query (DeleteById n) w of
           (Inr res, w1) \<Rightarrow> (Inr (affectedRows res > 0), w1)
         | (Inl error, w1) \<Rightarrow> (Inl (Error (js ''Failed to delete blacklist entry'')), w1)))"

definition exists :: "jsval \<Rightarrow> world \<Rightarrow> (error + bool) \<times> world" where
  "exists identifier w =
     (case identifier of
        JString s \<Rightarrow>
          if s = [] \<or> length (trim s) = 0
          then (Inl (Error (js ''Identifier is required and must be a non-empty string'')), w)
          else
            (case query (CountByIdentifier (trim s)) w of
               (Inr res, w1) \<Rightarrow> (Inr (countOf res > 0), w1)
             | (Inl error, w1) \<Rightarrow>
                 (Inl (Error (js ''Failed to check blacklist entry existence'')), w1))
      | v \<Rightarrow> (Inl (Error (js ''Identifier is required and must be a non-empty string'')), w))"

section \<open>Service (BlacklistService)\<close>

definition checkDuplicate :: "jsval \<Rightarrow> world \<Rightarrow> (error + bool) \<times> world" where
  "checkDuplicate identifier w =
     (case identifier of
        JString s \<Rightarrow>
          if s = [] \<or> length (trim s) = 0
          then (Inl (Error (js ''Invalid identifier: Identifier must be a non-empty string'')), w)
          else
            (case exists (JString (trim s)) w of
               (Inr found, w1) \<Rightarrow> (Inr found, w1)
             | (Inl error, w1) \<Rightarrow> (Inl (Error (js ''Failed to check for duplicate entry'')), w1))
      | v \<Rightarrow> (Inl (Error (js ''Invalid identifier: Identifier must be a non-empty string'')), w))"

definition duplicateError :: "jsval \<Rightarrow> error" where
  "duplicateError identifier =
     Error (js ''Duplicate entry: An entry with identifier '' @ [0x22] @ stringOf identifier
            @ [0x22] @ js '' already exists'')"

definition addEntry :: "CreateBlacklistEntryInput \<Rightarrow> world \<Rightarrow> (error + int) \<times> world" where
  "addEntry entry w =
     (case sanitizeBlacklistEntryInput entry of
        Inl typeError \<Rightarrow> (Inl typeError, w)
      | Inr sanitizedEntry \<Rightarrow>
          (let validation = validateBlacklistEntry sanitizedEntry
           in if \<not> isValid validation
              then (Inl (Error (js ''Validation failed: ''
                                @ js (joinWith '', '' (errors validation)))), w)
              else
                (case
                   (case checkDuplicate (in_identifier sanitizedEntry) w of
                      (Inl error, w1) \<Rightarrow> (Inl error, w1)
                    | (Inr isDuplicate, w1) \<Rightarrow>
                        (if isDuplicate
                         then (Inl (duplicateError (in_identifier sanitizedEntry)), w1)
                         else (Inr (), w1))) of
                   (Inl error, w1) \<Rightarrow>
                     (if stringIncludes (message error) (js ''Duplicate entry'')
                      then (Inl error, w1)
                      else (Inl (Error (js ''Failed to verify entry uniqueness'')), w1))
                 | (Inr u, w1) \<Rightarrow>
                     (case create sanitizedEntry w1 of
                        (Inr entryId, w2) \<Rightarrow> (Inr entryId, w2)
                      | (Inl error, w2) \<Rightarrow>
                          (Inl (Error (js ''Failed to add blacklist entry to database'')), w2)))))"

definition searchEntries :: "SearchCriteria \<Rightarrow> world \<Rightarrow> (error + BlacklistEntry list) \<times> world" where
  "searchEntries criteria w =
     (case sanitizeSearchCriteria criteria of
        Inl typeError \<Rightarrow> (Inl typeError, w)
      | Inr sanitizedCriteria \<Rightarrow>
          (let validation = validateSearchCriteria sanitizedCriteria
           in if \<not> isValid validation
              then (Inl (Error (js ''Search validation failed: ''
                                @ js (joinWith '', '' (errors validation)))), w)
              else
                (case search sanitizedCriteria w of
                   (Inr results, w1) \<Rightarrow> (Inr results, w1)
                 | (Inl error, w1) \<Rightarrow>
                     (Inl (Error (js ''Failed to search blacklist entries'')), w1))))"

definition removeEntry :: "int \<Rightarrow> world \<Rightarrow> (error + bool) \<times> world" where
  "removeEntry n w =
     (if n \<le> 0 then (Inl (Error (js ''Invalid ID: ID must be a positive number'')), w)
      else
        (case
           (case findById n w of
              (Inl error, w1) \<Rightarrow> (Inl error, w1)
            | (Inr existingEntry, w1) \<Rightarrow>
                (case existingEntry of
                   None \<Rightarrow> (Inr False, w1)
                 | Some entry \<Rightarrow> deleteById n w1)) of
           (Inr deleted, w2) \<Rightarrow> (Inr deleted, w2)
         | (Inl error, w2) \<Rightarrow> (Inl (Error (js ''Failed to remove blacklist entry'')), w2)))"

definition getById :: "int \<Rightarrow> world \<Rightarrow> (error + BlacklistEntry option) \<times> world" where
  "getById n w =
     (if n \<le> 0 then (Inl (Error (js ''Invalid ID: ID must be a positive number'')), w)
      else
        (case findById n w of
           (Inr entry, w1) \<Rightarrow> (Inr entry, w1)
         | (Inl error, w1) \<Rightarrow> (Inl (Error (js ''Failed to get entry by ID'')), w1)))"

section \<open>Notions used to state the properties\<close>

text \<open>No call into the driver is scheduled to fail.\<close>

definition noFailures :: "world \<Rightarrow> bool" where
  "noFailures w = list_all (\<lambda>out. out = Succeeds) (outcomes w)"

text \<open>
  What the primary key with AUTO_INCREMENT guarantees: ids are positive, pairwise different
  and below the next id to be handed out.
\<close>

definition keysWellFormed :: "database \<Rightarrow> bool" where
  "keysWellFormed db =
     (1 \<le> autoIncrement db \<and> distinct (map r_id (rows db)) \<and>
      list_all (\<lambda>r. 1 \<le> r_id r \<and> r_id r < autoIncrement db) (rows db))"

text \<open>The statements executed, in order, as read off a trace.\<close>

fun statementsOf :: "event list \<Rightarrow> statement list" where
  "statementsOf [] = []"
| "statementsOf (Execute c stmt # evs) = stmt # statementsOf evs"
| "statementsOf (ev # evs) = statementsOf evs"

text \<open>The connections acquired and the connections released, in order, as read off a trace.\<close>

fun acquisitions :: "event list \<Rightarrow> nat list" where
  "acquisitions [] = []"
| "acquisitions (Acquire c # evs) = c # acquisitions evs"
| "acquisitions (ev # evs) = acquisitions evs"

fun releases :: "event list \<Rightarrow> nat list" where
  "releases [] = []"
| "releases (Release c # evs) = c # releases evs"
| "releases (ev # evs) = releases evs"

text \<open>The outcome scheduled for the k-th next call into the driver.\<close>

definition scheduledIn :: "nat \<Rightarrow> outcome list \<Rightarrow> outcome" where
  "scheduledIn k outs = (if k < length outs then outs ! k else Succeeds)"

definition scheduled :: "nat \<Rightarrow> world \<Rightarrow> outcome" where
  "scheduled k w = scheduledIn k (outcomes w)"

text \<open>A step during which nothing fails, the database stays as it is and no statement runs.\<close>

definition quiet :: "world \<Rightarrow> world \<Rightarrow> bool" where
  "quiet w w' = (noFailures w' \<and> database w' = database w \<and>
     statementsOf (trace w') = statementsOf (trace w))"

text \<open>
  Bookkeeping of connections between two states: \<open>unchanged\<close> when no connection was
  acquired or released, \<open>balanced\<close> when every connection acquired has been released once,
  \<open>holding c\<close> when that is so except for \<open>c\<close>, acquired last and not yet released.
\<close>

definition unchanged :: "world \<Rightarrow> world \<Rightarrow> bool" where
  "unchanged w w' = (held w' = held w \<and> doubleRelease w' = doubleRelease w \<and>
     nextConnection w' = nextConnection w \<and>
     acquisitions (trace w') = acquisitions (trace w) \<and> releases (trace w') = releases (trace w))"

definition balanced :: "world \<Rightarrow> world \<Rightarrow> bool" where
  "balanced w w' = (held w' = held w \<and> doubleRelease w' = doubleRelease w \<and>
     nextConnection w \<le> nextConnection w' \<and>
     acquisitions (trace w') = acquisitions (trace w) @ [nextConnection w..<nextConnection w'] \<and>
     releases (trace w') = releases (trace w) @ [nextConnection w..<nextConnection w'])"

definition holding :: "nat \<Rightarrow> world \<Rightarrow> world \<Rightarrow> bool" where
  "holding c w w' = (held w' = c # held w \<and> doubleRelease w' = doubleRelease w \<and>
     nextConnection w \<le> c \<and> nextConnection w' = Suc c \<and>
     acquisitions (trace w') = acquisitions (trace w) @ [nextConnection w..<Suc c] \<and>
     releases (trace w') = releases (trace w) @ [nextConnection w..<c])"

text \<open>The database and the statements executed are the same in both states.\<close>

definition sameData :: "world \<Rightarrow> world \<Rightarrow> bool" where
  "sameData w w' = (database w' = database w \<and> statementsOf (trace w') = statementsOf (trace w))"

text \<open>An event that neither acquires nor releases a connection.\<close>

definition quietEvent :: "event \<Rightarrow> bool" where
  "quietEvent ev = (acquisitions [ev] = [] \<and> releases [ev] = [])"

definition steady :: "world \<Rightarrow> world \<Rightarrow> bool" where
  "steady w w' = (balanced w w' \<and> sameData w w')"

definition acquired :: "nat \<Rightarrow> world \<Rightarrow> world \<Rightarrow> bool" where
  "acquired c w w' = (holding c w w' \<and> sameData w w')"

text \<open>
  States used in examples. The collation of the examples is what \<open>utf8mb4_unicode_ci\<close> does
  on ASCII: letters compare without regard to case, every other code unit only equals
  itself. A fresh process has no pool and has never failed to connect; its table is empty.
\<close>

definition unicode_ci :: "char16 \<Rightarrow> char16 \<Rightarrow> bool" where
  "unicode_ci c d = (lower c = lower d)"

definition freshWorld :: world where
  "freshWorld =
     \<lparr>pool = False, reconnectAttempts = 0,
      database = \<lparr>rows = [], autoIncrement = 1, clock = 0, collation = unicode_ci\<rparr>,
      outcomes = [], nextConnection = 0, held = [], doubleRelease = False, trace = []\<rparr>"

text \<open>
  Containment of a fragment in a name when characters are compared under a collation:
  some run of consecutive characters of the name matches the fragment character by
  character. A fragment is plain when it holds none of the characters that \<open>LIKE\<close> reads
  specially.
\<close>

fun startsWithUnder :: "(char16 \<Rightarrow> char16 \<Rightarrow> bool) \<Rightarrow> jsstring \<Rightarrow> jsstring \<Rightarrow> bool" where
  "startsWithUnder eq s [] = True"
| "startsWithUnder eq [] (p # ps) = False"
| "startsWithUnder eq (c # cs) (p # ps) = (eq p c \<and> startsWithUnder eq cs ps)"

fun includesUnder :: "(char16 \<Rightarrow> char16 \<Rightarrow> bool) \<Rightarrow> jsstring \<Rightarrow> jsstring \<Rightarrow> bool" where
  "includesUnder eq [] sub = (sub = [])"
| "includesUnder eq (c # cs) sub = (startsWithUnder eq (c # cs) sub \<or> includesUnder eq cs sub)"

definition likePlain :: "jsstring \<Rightarrow> bool" where
  "likePlain s = list_all (\<lambda>c. c \<notin> set [0x25, 0x5F, 0x5C]) s"

definition exampleWorld :: world where
  "exampleWorld =
     freshWorld\<lparr>database :=
       \<lparr>rows = [\<lparr>r_id = 1, r_identifier = js ''0898765432'', r_first_name = Some (js ''Johnson''),
                 r_last_name = Some (js ''Doe''), r_created_at = 0, r_created_by = js ''U1''\<rparr>],
        autoIncrement = 2, clock = 0, collation = unicode_ci\<rparr>\<rparr>"

section \<open>Properties of the validation module\<close>

lemma trim_Nil [simp]: "trim [] = []"
  by (simp add: trim_def)

lemma last_dropWhile:
  "dropWhile P xs \<noteq> [] \<Longrightarrow> last (dropWhile P xs) = last xs"
  by (induction xs) auto

lemma dropWhile_fixed:
  "xs = [] \<or> \<not> P (hd xs) \<Longrightarrow> dropWhile P xs = xs"
  by (cases xs) auto

lemma trim_hd: "trim s \<noteq> [] \<Longrightarrow> \<not> isWhiteSpace (hd (trim s))"
proof -
  assume ne: "trim s \<noteq> []"
  let ?u = "dropWhile isWhiteSpace s"
  have d: "dropWhile isWhiteSpace (rev ?u) \<noteq> []"
    using ne by (simp add: trim_def)
  have u: "?u \<noteq> []"
  proof
    assume e: "?u = []"
    have "dropWhile isWhiteSpace (rev ?u) = []"
      unfolding e by simp
    with d show False by simp
  qed
  have "hd (trim s) = last (dropWhile isWhiteSpace (rev ?u))"
    using d by (simp add: trim_def hd_rev)
  also have "\<dots> = last (rev ?u)"
    using d by (rule last_dropWhile)
  also have "\<dots> = hd ?u"
    using u by (simp add: last_rev)
  finally show ?thesis
    using hd_dropWhile [OF u] by simp
qed

lemma trim_last: "trim s \<noteq> [] \<Longrightarrow> \<not> isWhiteSpace (last (trim s))"
proof -
  assume ne: "trim s \<noteq> []"
  let ?v = "dropWhile isWhiteSpace (rev (dropWhile isWhiteSpace s))"
  have v: "?v \<noteq> []"
    using ne by (simp add: trim_def)
  have "last (trim s) = hd ?v"
    using v by (simp add: trim_def last_rev)
  then show ?thesis
    using hd_dropWhile [OF v] by simp
qed

lemma trim_idem [simp]: "trim (trim s) = trim s"
proof -
  have a: "dropWhile isWhiteSpace (trim s) = trim s"
    using trim_hd [of s] by (intro dropWhile_fixed) blast
  have b: "dropWhile isWhiteSpace (rev (trim s)) = rev (trim s)"
    by (simp add: trim_def)
  have "trim (trim s) = rev (dropWhile isWhiteSpace (rev (trim s)))"
    using a by (simp add: trim_def [of "trim s"])
  then show ?thesis
    using b by simp
qed

lemma trimmed_trim: "trimmed (trim s)"
proof (cases "trim s")
  case Nil
  then show ?thesis by (simp add: trimmed_def)
next
  case (Cons x xs)
  then have ne: "trim s \<noteq> []" by simp
  show ?thesis
    using trim_hd [OF ne] trim_last [OF ne] by (simp add: trimmed_def Cons)
qed

lemma trim_decompose:
  "\<exists>l r. s = l @ trim s @ r \<and> list_all isWhiteSpace l \<and> list_all isWhiteSpace r"
proof -
  let ?u = "dropWhile isWhiteSpace s"
  have 1: "s = takeWhile isWhiteSpace s @ ?u" by simp
  have a: "takeWhile isWhiteSpace (rev ?u) @ dropWhile isWhiteSpace (rev ?u) = rev ?u"
    by (rule takeWhile_dropWhile_id)
  have "?u = rev (rev ?u)" by simp
  also have "\<dots> = rev (takeWhile isWhiteSpace (rev ?u) @ dropWhile isWhiteSpace (rev ?u))"
    by (simp only: a)
  also have "\<dots> = rev (dropWhile isWhiteSpace (rev ?u)) @ rev (takeWhile isWhiteSpace (rev ?u))"
    by (rule rev_append)
  finally have 2: "?u = trim s @ rev (takeWhile isWhiteSpace (rev ?u))"
    by (simp only: trim_def)
  have 3: "list_all isWhiteSpace (takeWhile isWhiteSpace s)"
    by (simp add: list_all_iff) (meson set_takeWhileD)
  have 4: "list_all isWhiteSpace (rev (takeWhile isWhiteSpace (rev ?u)))"
    by (simp add: list_all_iff) (meson set_takeWhileD)
  have "s = takeWhile isWhiteSpace s @ trim s @ rev (takeWhile isWhiteSpace (rev ?u))"
    using 1 2 by metis
  then show ?thesis using 3 4 by blast
qed

lemma mem_jsval_case:
  "m \<in> set (case v of JUndefined \<Rightarrow> a | JNull \<Rightarrow> b | JString s \<Rightarrow> c s | JNumber n \<Rightarrow> d n | JBoolean t \<Rightarrow> e t)
   \<longleftrightarrow> (v = JUndefined \<and> m \<in> set a) \<or> (v = JNull \<and> m \<in> set b) \<or> (\<exists>s. v = JString s \<and> m \<in> set (c s))
      \<or> (\<exists>n. v = JNumber n \<and> m \<in> set (d n)) \<or> (\<exists>t. v = JBoolean t \<and> m \<in> set (e t))"
  by (cases v) simp_all

lemma mem_if:
  "m \<in> set (if c then a else b) \<longleftrightarrow> (c \<and> m \<in> set a) \<or> (\<not> c \<and> m \<in> set b)"
  by simp

lemma not_string_cases:
  "(\<forall>s. v \<noteq> JString s) \<longleftrightarrow> v = JUndefined \<or> v = JNull \<or> (\<exists>n. v = JNumber n) \<or> (\<exists>b. v = JBoolean b)"
  by (cases v) simp_all

lemma entry_valid_iff: "isValid (validateBlacklistEntry i) \<longleftrightarrow> errors (validateBlacklistEntry i) = []"
  by (simp add: validateBlacklistEntry_def Let_def)

lemma entry_identifier_type:
  "''Identifier is required and must be a string'' \<in> set (errors (validateBlacklistEntry i))
   \<longleftrightarrow> (\<forall>s. in_identifier i \<noteq> JString s)"
  unfolding validateBlacklistEntry_def Let_def not_string_cases
  by (simp add: mem_jsval_case mem_if)

lemma entry_identifier_empty:
  "''Identifier cannot be empty'' \<in> set (errors (validateBlacklistEntry i))
   \<longleftrightarrow> (\<exists>s. in_identifier i = JString s \<and> trim s = [])"
  unfolding validateBlacklistEntry_def Let_def
  by (simp add: mem_jsval_case mem_if)

lemma entry_identifier_length:
  "''Identifier cannot exceed 255 characters'' \<in> set (errors (validateBlacklistEntry i))
   \<longleftrightarrow> (\<exists>s. in_identifier i = JString s \<and> trim s \<noteq> [] \<and> 255 < length s)"
  unfolding validateBlacklistEntry_def Let_def
  by (simp add: mem_jsval_case mem_if)

lemma entry_createdBy_type:
  "''CreatedBy is required and must be a string'' \<in> set (errors (validateBlacklistEntry i))
   \<longleftrightarrow> (\<forall>s. in_createdBy i \<noteq> JString s)"
  unfolding validateBlacklistEntry_def Let_def not_string_cases
  by (simp add: mem_jsval_case mem_if)

lemma entry_createdBy_empty:
  "''CreatedBy cannot be empty'' \<in> set (errors (validateBlacklistEntry i))
   \<longleftrightarrow> (\<exists>s. in_createdBy i = JString s \<and> trim s = [])"
  unfolding validateBlacklistEntry_def Let_def
  by (simp add: mem_jsval_case mem_if)

lemma entry_createdBy_length:
  "''CreatedBy cannot exceed 20 characters'' \<in> set (errors (validateBlacklistEntry i))
   \<longleftrightarrow> (\<exists>s. in_createdBy i = JString s \<and> trim s \<noteq> [] \<and> 20 < length s)"
  unfolding validateBlacklistEntry_def Let_def
  by (simp add: mem_jsval_case mem_if)

lemma entry_firstName_type:
  "''FirstName must be a string'' \<in> set (errors (validateBlacklistEntry i))
   \<longleftrightarrow> in_firstName i \<noteq> JUndefined \<and> (\<forall>s. in_firstName i \<noteq> JString s)"
  unfolding validateBlacklistEntry_def Let_def not_string_cases
  by (simp add: mem_jsval_case mem_if) auto

lemma entry_firstName_length:
  "''FirstName cannot exceed 100 characters'' \<in> set (errors (validateBlacklistEntry i))
   \<longleftrightarrow> (\<exists>s. in_firstName i = JString s \<and> 100 < length s)"
  unfolding validateBlacklistEntry_def Let_def
  by (simp add: mem_jsval_case mem_if)

lemma entry_lastName_type:
  "''LastName must be a string'' \<in> set (errors (validateBlacklistEntry i))
   \<longleftrightarrow> in_lastName i \<noteq> JUndefined \<and> (\<forall>s. in_lastName i \<noteq> JString s)"
  unfolding validateBlacklistEntry_def Let_def not_string_cases
  by (simp add: mem_jsval_case mem_if) auto

lemma entry_lastName_length:
  "''LastName cannot exceed 100 characters'' \<in> set (errors (validateBlacklistEntry i))
   \<longleftrightarrow> (\<exists>s. in_lastName i = JString s \<and> 100 < length s)"
  unfolding validateBlacklistEntry_def Let_def
  by (simp add: mem_jsval_case mem_if)

lemma criteria_valid_iff: "isValid (validateSearchCriteria c) \<longleftrightarrow> errors (validateSearchCriteria c) = []"
  by (simp add: validateSearchCriteria_def Let_def)

lemma criteria_at_least_one:
  "''At least one search criterion must be provided (identifier, firstName, or lastName)''
     \<in> set (errors (validateSearchCriteria c))
   \<longleftrightarrow> \<not> truthy (sc_identifier c) \<and> \<not> truthy (sc_firstName c) \<and> \<not> truthy (sc_lastName c)"
  unfolding validateSearchCriteria_def Let_def
  by (simp add: mem_jsval_case mem_if)

lemma criteria_identifier_type:
  "''Identifier must be a string'' \<in> set (errors (validateSearchCriteria c))
   \<longleftrightarrow> sc_identifier c \<noteq> JUndefined \<and> (\<forall>s. sc_identifier c \<noteq> JString s)"
  unfolding validateSearchCriteria_def Let_def not_string_cases
  by (simp add: mem_jsval_case mem_if) auto

lemma criteria_identifier_empty:
  "''Identifier cannot be empty when provided'' \<in> set (errors (validateSearchCriteria c))
   \<longleftrightarrow> (\<exists>s. sc_identifier c = JString s \<and> trim s = [])"
  unfolding validateSearchCriteria_def Let_def
  by (simp add: mem_jsval_case mem_if)

lemma criteria_identifier_length:
  "''Identifier cannot exceed 255 characters'' \<in> set (errors (validateSearchCriteria c))
   \<longleftrightarrow> (\<exists>s. sc_identifier c = JString s \<and> trim s \<noteq> [] \<and> 255 < length s)"
  unfolding validateSearchCriteria_def Let_def
  by (simp add: mem_jsval_case mem_if)

lemma criteria_firstName_type:
  "''FirstName must be a string'' \<in> set (errors (validateSearchCriteria c))
   \<longleftrightarrow> sc_firstName c \<noteq> JUndefined \<and> (\<forall>s. sc_firstName c \<noteq> JString s)"
  unfolding validateSearchCriteria_def Let_def not_string_cases
  by (simp add: mem_jsval_case mem_if) auto

lemma criteria_firstName_empty:
  "''FirstName cannot be empty when provided'' \<in> set (errors (validateSearchCriteria c))
   \<longleftrightarrow> (\<exists>s. sc_firstName c = JString s \<and> trim s = [])"
  unfolding validateSearchCriteria_def Let_def
  by (simp add: mem_jsval_case mem_if)

lemma criteria_firstName_length:
  "''FirstName cannot exceed 100 characters'' \<in> set (errors (validateSearchCriteria c))
   \<longleftrightarrow> (\<exists>s. sc_firstName c = JString s \<and> trim s \<noteq> [] \<and> 100 < length s)"
  unfolding validateSearchCriteria_def Let_def
  by (simp add: mem_jsval_case mem_if)

lemma criteria_lastName_type:
  "''LastName must be a string'' \<in> set (errors (validateSearchCriteria c))
   \<longleftrightarrow> sc_lastName c \<noteq> JUndefined \<and> (\<forall>s. sc_lastName c \<noteq> JString s)"
  unfolding validateSearchCriteria_def Let_def not_string_cases
  by (simp add: mem_jsval_case mem_if) auto

lemma criteria_lastName_empty:
  "''LastName cannot be empty when provided'' \<in> set (errors (validateSearchCriteria c))
   \<longleftrightarrow> (\<exists>s. sc_lastName c = JString s \<and> trim s = [])"
  unfolding validateSearchCriteria_def Let_def
  by (simp add: mem_jsval_case mem_if)

lemma criteria_lastName_length:
  "''LastName cannot exceed 100 characters'' \<in> set (errors (validateSearchCriteria c))
   \<longleftrightarrow> (\<exists>s. sc_lastName c = JString s \<and> trim s \<noteq> [] \<and> 100 < length s)"
  unfolding validateSearchCriteria_def Let_def
  by (simp add: mem_jsval_case mem_if)

lemma trim_spaces: "trim (replicate n 0x20) = []"
  by (simp add: trim_def isWhiteSpace_def)


text \<open>
  Claim C8, as stated, fails: within one field the checks form an else-if chain, so a
  field that violates two constraints gets one message only. An identifier of 256 spaces
  exceeds the bound 255, and the only message is the one about emptiness.
\<close>

theorem validate_blank_overlong_identifier_counterexample:
  "255 < length (replicate 256 (0x20 :: char16)) \<and>
   errors (validateBlacklistEntry
     \<lparr>in_identifier = JString (replicate 256 0x20), in_firstName = JUndefined,
      in_lastName = JUndefined, in_createdBy = JString (js ''U1'')\<rparr>)
   = [''Identifier cannot be empty'']"
  by (simp add: validateBlacklistEntry_def trim_spaces js_def trim_def isWhiteSpace_def)

text \<open>
  Claim C8, amended: both validators return valid exactly when the errors list is empty,
  and the list holds, for every field separately, the message of the first constraint that
  field violates, in the order type or required-ness, blankness, length bound (255 for the
  identifier, 100 for each name, 20 for createdBy); a create input's names have no
  blankness check; search criteria also get the at-least-one-field message exactly when no
  field is truthy. A violation in one field never hides a violation in another.
\<close>

theorem validation_reports_every_field:
  "(isValid (validateBlacklistEntry i) \<longleftrightarrow> errors (validateBlacklistEntry i) = []) \<and>
   (''Identifier is required and must be a string'' \<in> set (errors (validateBlacklistEntry i))
      \<longleftrightarrow> (\<forall>s. in_identifier i \<noteq> JString s)) \<and>
   (''Identifier cannot be empty'' \<in> set (errors (validateBlacklistEntry i))
      \<longleftrightarrow> (\<exists>s. in_identifier i = JString s \<and> trim s = [])) \<and>
   (''Identifier cannot exceed 255 characters'' \<in> set (errors (validateBlacklistEntry i))
      \<longleftrightarrow> (\<exists>s. in_identifier i = JString s \<and> trim s \<noteq> [] \<and> 255 < length s)) \<and>
   (''CreatedBy is required and must be a string'' \<in> set (errors (validateBlacklistEntry i))
      \<longleftrightarrow> (\<forall>s. in_createdBy i \<noteq> JString s)) \<and>
   (''CreatedBy cannot be empty'' \<in> set (errors (validateBlacklistEntry i))
      \<longleftrightarrow> (\<exists>s. in_createdBy i = JString s \<and> trim s = [])) \<and>
   (''CreatedBy cannot exceed 20 characters'' \<in> set (errors (validateBlacklistEntry i))
      \<longleftrightarrow> (\<exists>s. in_createdBy i = JString s \<and> trim s \<noteq> [] \<and> 20 < length s)) \<and>
   (''FirstName must be a string'' \<in> set (errors (validateBlacklistEntry i))
      \<longleftrightarrow> in_firstName i \<noteq> JUndefined \<and> (\<forall>s. in_firstName i \<noteq> JString s)) \<and>
   (''FirstName cannot exceed 100 characters'' \<in> set (errors (validateBlacklistEntry i))
      \<longleftrightarrow> (\<exists>s. in_firstName i = JString s \<and> 100 < length s)) \<and>
   (''LastName must be a string'' \<in> set (errors (validateBlacklistEntry i))
      \<longleftrightarrow> in_lastName i \<noteq> JUndefined \<and> (\<forall>s. in_lastName i \<noteq> JString s)) \<and>
   (''LastName cannot exceed 100 characters'' \<in> set (errors (validateBlacklistEntry i))
      \<longleftrightarrow> (\<exists>s. in_lastName i = JString s \<and> 100 < length s)) \<and>
   (isValid (validateSearchCriteria c) \<longleftrightarrow> errors (validateSearchCriteria c) = []) \<and>
   (''At least one search criterion must be provided (identifier, firstName, or lastName)''
        \<in> set (errors (validateSearchCriteria c))
      \<longleftrightarrow> \<not> truthy (sc_identifier c) \<and> \<not> truthy (sc_firstName c) \<and> \<not> truthy (sc_lastName c)) \<and>
   (''Identifier must be a string'' \<in> set (errors (validateSearchCriteria c))
      \<longleftrightarrow> sc_identifier c \<noteq> JUndefined \<and> (\<forall>s. sc_identifier c \<noteq> JString s)) \<and>
   (''Identifier cannot be empty when provided'' \<in> set (errors (validateSearchCriteria c))
      \<longleftrightarrow> (\<exists>s. sc_identifier c = JString s \<and> trim s = [])) \<and>
   (''Identifier cannot exceed 255 characters'' \<in> set (errors (validateSearchCriteria c))
      \<longleftrightarrow> (\<exists>s. sc_identifier c = JString s \<and> trim s \<noteq> [] \<and> 255 < length s)) \<and>
   (''FirstName must be a string'' \<in> set (errors (validateSearchCriteria c))
      \<longleftrightarrow> sc_firstName c \<noteq> JUndefined \<and> (\<forall>s. sc_firstName c \<noteq> JString s)) \<and>
   (''FirstName cannot be empty when provided'' \<in> set (errors (validateSearchCriteria c))
      \<longleftrightarrow> (\<exists>s. sc_firstName c = JString s \<and> trim s = [])) \<and>
   (''FirstName cannot exceed 100 characters'' \<in> set (errors (validateSearchCriteria c))
      \<longleftrightarrow> (\<exists>s. sc_firstName c = JString s \<and> trim s \<noteq> [] \<and> 100 < length s)) \<and>
   (''LastName must be a string'' \<in> set (errors (validateSearchCriteria c))
      \<longleftrightarrow> sc_lastName c \<noteq> JUndefined \<and> (\<forall>s. sc_lastName c \<noteq> JString s)) \<and>
   (''LastName cannot be empty when provided'' \<in> set (errors (validateSearchCriteria c))
      \<longleftrightarrow> (\<exists>s. sc_lastName c = JString s \<and> trim s = [])) \<and>
   (''LastName cannot exceed 100 characters'' \<in> set (errors (validateSearchCriteria c))
      \<longleftrightarrow> (\<exists>s. sc_lastName c = JString s \<and> trim s \<noteq> [] \<and> 100 < length s))"
  by (intro conjI entry_valid_iff entry_identifier_type entry_identifier_empty
      entry_identifier_length entry_createdBy_type entry_createdBy_empty entry_createdBy_length
      entry_firstName_type entry_firstName_length entry_lastName_type entry_lastName_length
      criteria_valid_iff criteria_at_least_one criteria_identifier_type
      criteria_identifier_empty criteria_identifier_length criteria_firstName_type
      criteria_firstName_empty criteria_firstName_length criteria_lastName_type
      criteria_lastName_empty criteria_lastName_length)

theorem validation_reports_every_field_witness:
  "''Identifier is required and must be a string''
     \<in> set (errors (validateBlacklistEntry
         \<lparr>in_identifier = JUndefined, in_firstName = JNumber 7,
          in_lastName = JUndefined, in_createdBy = JString (replicate 21 0x41)\<rparr>)) \<and>
   ''CreatedBy cannot exceed 20 characters''
     \<in> set (errors (validateBlacklistEntry
         \<lparr>in_identifier = JUndefined, in_firstName = JNumber 7,
          in_lastName = JUndefined, in_createdBy = JString (replicate 21 0x41)\<rparr>)) \<and>
   ''FirstName must be a string''
     \<in> set (errors (validateBlacklistEntry
         \<lparr>in_identifier = JUndefined, in_firstName = JNumber 7,
          in_lastName = JUndefined, in_createdBy = JString (replicate 21 0x41)\<rparr>)) \<and>
   \<not> isValid (validateBlacklistEntry
         \<lparr>in_identifier = JUndefined, in_firstName = JNumber 7,
          in_lastName = JUndefined, in_createdBy = JString (replicate 21 0x41)\<rparr>)"
proof -
  have t: "trim (replicate 21 (0x41 :: char16)) \<noteq> []"
    by (simp add: trim_def isWhiteSpace_def)
  show ?thesis
    using t validation_reports_every_field
      [of "\<lparr>in_identifier = JUndefined, in_firstName = JNumber 7,
            in_lastName = JUndefined, in_createdBy = JString (replicate 21 0x41)\<rparr>"
          "\<lparr>sc_identifier = JUndefined, sc_firstName = JUndefined, sc_lastName = JUndefined\<rparr>"]
    by auto
qed

lemma sanitizeSearchCriteria_Inr:
  "sanitizeSearchCriteria c = Inr r \<Longrightarrow>
   r = \<lparr>sc_identifier = optionalSanitized (sc_identifier c),
        sc_firstName = optionalSanitized (sc_firstName c),
        sc_lastName = optionalSanitized (sc_lastName c)\<rparr>"
  unfolding sanitizeSearchCriteria_def Let_def optionalSanitized_def
  by (cases "sc_identifier c"; cases "sc_firstName c"; cases "sc_lastName c")
     (auto split: if_splits)

lemma sanitizeSearchCriteria_total:
  "declaredType (sc_identifier c) \<Longrightarrow> declaredType (sc_firstName c) \<Longrightarrow> declaredType (sc_lastName c) \<Longrightarrow>
   \<exists>r. sanitizeSearchCriteria c = Inr r"
  unfolding sanitizeSearchCriteria_def Let_def declaredType_def
  by (cases "sc_identifier c"; cases "sc_firstName c"; cases "sc_lastName c") simp_all

lemma sanitizeBlacklistEntryInput_Inr:
  "sanitizeBlacklistEntryInput i = Inr r \<Longrightarrow>
   r = \<lparr>in_identifier = requiredSanitized (in_identifier i),
        in_firstName = optionalSanitized (in_firstName i),
        in_lastName = optionalSanitized (in_lastName i),
        in_createdBy = requiredSanitized (in_createdBy i)\<rparr>"
  unfolding sanitizeBlacklistEntryInput_def Let_def optionalSanitized_def requiredSanitized_def
  by (cases "in_identifier i"; cases "in_createdBy i"; cases "in_firstName i"; cases "in_lastName i")
     (auto split: if_splits)

lemma sanitizeBlacklistEntryInput_total:
  "declaredType (in_identifier i) \<Longrightarrow> declaredType (in_createdBy i) \<Longrightarrow>
   declaredType (in_firstName i) \<Longrightarrow> declaredType (in_lastName i) \<Longrightarrow>
   \<exists>r. sanitizeBlacklistEntryInput i = Inr r"
  unfolding sanitizeBlacklistEntryInput_def Let_def declaredType_def
  by (cases "in_identifier i"; cases "in_createdBy i"; cases "in_firstName i"; cases "in_lastName i")
     simp_all

lemma optionalSanitized_cases:
  "optionalSanitized v = JUndefined \<or> (\<exists>t. optionalSanitized v = JString t \<and> t \<noteq> [] \<and> trim t = t)"
  by (cases v) (simp_all add: optionalSanitized_def)

lemma requiredSanitized_cases:
  "\<exists>t. requiredSanitized v = JString t \<and> trim t = t"
  by (cases v) (simp_all add: requiredSanitized_def)

lemma sanitizeSearchCriteria_fixed:
  assumes "a = JUndefined \<or> (\<exists>t. a = JString t \<and> t \<noteq> [] \<and> trim t = t)"
      and "b = JUndefined \<or> (\<exists>t. b = JString t \<and> t \<noteq> [] \<and> trim t = t)"
      and "d = JUndefined \<or> (\<exists>t. d = JString t \<and> t \<noteq> [] \<and> trim t = t)"
  shows "sanitizeSearchCriteria \<lparr>sc_identifier = a, sc_firstName = b, sc_lastName = d\<rparr>
         = Inr \<lparr>sc_identifier = a, sc_firstName = b, sc_lastName = d\<rparr>"
  using assms unfolding sanitizeSearchCriteria_def Let_def
  by auto

lemma sanitizeBlacklistEntryInput_fixed:
  assumes "\<exists>t. a = JString t \<and> trim t = t"
      and "b = JUndefined \<or> (\<exists>t. b = JString t \<and> t \<noteq> [] \<and> trim t = t)"
      and "d = JUndefined \<or> (\<exists>t. d = JString t \<and> t \<noteq> [] \<and> trim t = t)"
      and "\<exists>t. e = JString t \<and> trim t = t"
  shows "sanitizeBlacklistEntryInput \<lparr>in_identifier = a, in_firstName = b, in_lastName = d, in_createdBy = e\<rparr>
         = Inr \<lparr>in_identifier = a, in_firstName = b, in_lastName = d, in_createdBy = e\<rparr>"
  using assms unfolding sanitizeBlacklistEntryInput_def Let_def
  by auto


text \<open>
  Claim C9, as stated, fails for the two required fields of a create input: a blank
  identifier comes back present, as the empty string.
\<close>

theorem sanitize_blank_identifier_counterexample:
  "sanitizeBlacklistEntryInput
     \<lparr>in_identifier = JString (js ''   ''), in_firstName = JUndefined,
      in_lastName = JUndefined, in_createdBy = JString (js ''U1'')\<rparr>
   = Inr \<lparr>in_identifier = JString [], in_firstName = JUndefined,
          in_lastName = JUndefined, in_createdBy = JString (js ''U1'')\<rparr>"
  by (simp add: sanitizeBlacklistEntryInput_def Let_def js_def trim_def isWhiteSpace_def)

text \<open>
  Claim C9, amended: for every input whose fields have a declared type (string,
  undefined or null), both sanitizers return an object; in it every optional field (the
  three search fields, firstName, lastName) is the trimmed input string, and is absent when
  the input is not a string or nothing is left after trimming; the required fields
  identifier and createdBy of a create input are always present, trimmed, and are the empty
  string when the input is missing or blank. A trimmed string neither starts nor ends with
  white space.
\<close>

theorem sanitizers_trim_and_drop_blank_optionals:
  "(declaredType (sc_identifier c) \<and> declaredType (sc_firstName c) \<and> declaredType (sc_lastName c)
      \<longrightarrow> sanitizeSearchCriteria c =
           Inr \<lparr>sc_identifier = optionalSanitized (sc_identifier c),
                sc_firstName = optionalSanitized (sc_firstName c),
                sc_lastName = optionalSanitized (sc_lastName c)\<rparr>) \<and>
   (declaredType (in_identifier i) \<and> declaredType (in_firstName i) \<and> declaredType (in_lastName i)
      \<and> declaredType (in_createdBy i)
      \<longrightarrow> sanitizeBlacklistEntryInput i =
           Inr \<lparr>in_identifier = requiredSanitized (in_identifier i),
                in_firstName = optionalSanitized (in_firstName i),
                in_lastName = optionalSanitized (in_lastName i),
                in_createdBy = requiredSanitized (in_createdBy i)\<rparr>) \<and>
   trimmed (trim s)"
  using sanitizeSearchCriteria_Inr [of c] sanitizeSearchCriteria_total [of c]
    sanitizeBlacklistEntryInput_Inr [of i] sanitizeBlacklistEntryInput_total [of i]
    trimmed_trim [of s]
  by blast

theorem sanitizers_trim_and_drop_blank_optionals_witness:
  "sanitizeSearchCriteria
     \<lparr>sc_identifier = JString (js '' 0812 ''), sc_firstName = JString (js ''  ''),
      sc_lastName = JUndefined\<rparr>
   = Inr \<lparr>sc_identifier = JString (js ''0812''), sc_firstName = JUndefined,
          sc_lastName = JUndefined\<rparr> \<and>
   sanitizeBlacklistEntryInput
     \<lparr>in_identifier = JString (js '' 0812 ''), in_firstName = JString (js ''John ''),
      in_lastName = JString (js ''  ''), in_createdBy = JNull\<rparr>
   = Inr \<lparr>in_identifier = JString (js ''0812''), in_firstName = JString (js ''John''),
          in_lastName = JUndefined, in_createdBy = JString []\<rparr>"
proof -
  have t: "trim (js '' 0812 '') = js ''0812''" "trim (js ''  '') = []"
    "trim (js ''John '') = js ''John''" "js ''0812'' \<noteq> []" "js ''John'' \<noteq> []"
    by (simp_all add: js_def trim_def isWhiteSpace_def)
  show ?thesis
    using sanitizers_trim_and_drop_blank_optionals
      [of "\<lparr>sc_identifier = JString (js '' 0812 ''), sc_firstName = JString (js ''  ''),
            sc_lastName = JUndefined\<rparr>"
          "\<lparr>in_identifier = JString (js '' 0812 ''), in_firstName = JString (js ''John ''),
            in_lastName = JString (js ''  ''), in_createdBy = JNull\<rparr>"]
    by (simp add: declaredType_def optionalSanitized_def requiredSanitized_def t)
qed

text \<open>
  Claim C10: both sanitizers are idempotent. Sanitizing the output of a sanitizer returns
  that output again; an input on which the sanitizer throws has no output to sanitize, and
  the composition throws the same error. So the Repository, which sanitizes again what the
  Service already sanitized, works on the same value.
\<close>

theorem sanitizers_idempotent:
  "andThen (sanitizeSearchCriteria c) sanitizeSearchCriteria = sanitizeSearchCriteria c \<and>
   andThen (sanitizeBlacklistEntryInput i) sanitizeBlacklistEntryInput = sanitizeBlacklistEntryInput i"
proof
  show "andThen (sanitizeSearchCriteria c) sanitizeSearchCriteria = sanitizeSearchCriteria c"
  proof (cases "sanitizeSearchCriteria c")
    case (Inl e)
    then show ?thesis by (simp add: andThen_def)
  next
    case (Inr r)
    have "sanitizeSearchCriteria r = Inr r"
      unfolding sanitizeSearchCriteria_Inr [OF Inr]
      by (intro sanitizeSearchCriteria_fixed optionalSanitized_cases)
    then show ?thesis using Inr by (simp add: andThen_def)
  qed
  show "andThen (sanitizeBlacklistEntryInput i) sanitizeBlacklistEntryInput = sanitizeBlacklistEntryInput i"
  proof (cases "sanitizeBlacklistEntryInput i")
    case (Inl e)
    then show ?thesis by (simp add: andThen_def)
  next
    case (Inr r)
    have "sanitizeBlacklistEntryInput r = Inr r"
      unfolding sanitizeBlacklistEntryInput_Inr [OF Inr]
      by (intro sanitizeBlacklistEntryInput_fixed optionalSanitized_cases requiredSanitized_cases)
    then show ?thesis using Inr by (simp add: andThen_def)
  qed
qed


theorem sanitizers_idempotent_witness:
  "andThen (sanitizeSearchCriteria
       \<lparr>sc_identifier = JString (js '' 0812 ''), sc_firstName = JString (js ''  ''),
        sc_lastName = JUndefined\<rparr>) sanitizeSearchCriteria
   = Inr \<lparr>sc_identifier = JString (js ''0812''), sc_firstName = JUndefined,
          sc_lastName = JUndefined\<rparr>"
proof -
  have t: "trim (js '' 0812 '') = js ''0812''" "trim (js ''  '') = []" "js ''0812'' \<noteq> []"
    "js ''  '' \<noteq> []" "js '' 0812 '' \<noteq> []"
    by (simp_all add: js_def trim_def isWhiteSpace_def)
  have "sanitizeSearchCriteria
       \<lparr>sc_identifier = JString (js '' 0812 ''), sc_firstName = JString (js ''  ''),
        sc_lastName = JUndefined\<rparr>
     = Inr \<lparr>sc_identifier = JString (js ''0812''), sc_firstName = JUndefined,
          sc_lastName = JUndefined\<rparr>"
    by (simp add: sanitizeSearchCriteria_def Let_def t)
  then show ?thesis
    using sanitizers_idempotent
      [of "\<lparr>sc_identifier = JString (js '' 0812 ''), sc_firstName = JString (js ''  ''),
            sc_lastName = JUndefined\<rparr>"]
    by simp
qed

section \<open>Properties of the connection manager\<close>

lemma statementsOf_append: "statementsOf (a @ b) = statementsOf a @ statementsOf b"
  by (induction a rule: statementsOf.induct) auto

lemma noFailures_tl: "noFailures w \<Longrightarrow> noFailures (w\<lparr>outcomes := tl (outcomes w)\<rparr>)"
  by (cases "outcomes w") (auto simp: noFailures_def)

lemma nextOutcome_noFailures:
  "noFailures w \<Longrightarrow> nextOutcome w = (Succeeds, w\<lparr>outcomes := tl (outcomes w)\<rparr>)"
  by (cases "outcomes w") (auto simp: noFailures_def nextOutcome_def)

lemma quiet_refl: "noFailures w \<Longrightarrow> quiet w w"
  by (simp add: quiet_def)

lemma quiet_trans: "quiet a b \<Longrightarrow> quiet b c \<Longrightarrow> quiet a c"
  by (simp add: quiet_def)

lemma quiet_noFailures: "quiet a b \<Longrightarrow> noFailures b"
  by (simp add: quiet_def)

lemma driverCall_noFailures:
  assumes "noFailures w" "\<forall>c s. ev \<noteq> Execute c s"
  shows "\<exists>w'. driverCall ev w = (Inr (), w') \<and> quiet w w' \<and> pool w' = pool w
     \<and> reconnectAttempts w' = reconnectAttempts w"
proof -
  have n: "noFailures (emit ev w)" using assms(1) by (simp add: noFailures_def emit_def)
  have s: "statementsOf [ev] = []" using assms(2) by (cases ev) auto
  show ?thesis
    unfolding driverCall_def nextOutcome_noFailures [OF n]
    using noFailures_tl [OF n] s
    by (simp add: quiet_def emit_def statementsOf_append)
qed

lemma poolGetConnection_noFailures:
  assumes "noFailures w"
  shows "\<exists>c w'. poolGetConnection w = (Inr c, w') \<and> quiet w w' \<and> pool w' = pool w
     \<and> reconnectAttempts w' = reconnectAttempts w"
  unfolding poolGetConnection_def nextOutcome_noFailures [OF assms]
  using noFailures_tl [OF assms]
  by (simp add: quiet_def emit_def statementsOf_append Let_def noFailures_def)

lemma release_quiet: "noFailures w \<Longrightarrow> quiet w (release c w) \<and> pool (release c w) = pool w
   \<and> reconnectAttempts (release c w) = reconnectAttempts w"
  by (simp add: quiet_def release_def emit_def statementsOf_append noFailures_def)

lemma testConnection_noFailures:
  assumes "noFailures w" "pool w"
  shows "\<exists>w'. testConnection w = (Inr (), w') \<and> quiet w w' \<and> pool w'"
proof -
  obtain c w1 where 1: "poolGetConnection w = (Inr c, w1)" "quiet w w1" "pool w1 = pool w"
    using poolGetConnection_noFailures [OF assms(1)] by blast
  obtain w2 where 2: "driverCall (Ping c) w1 = (Inr (), w2)" "quiet w1 w2" "pool w2 = pool w1"
    using driverCall_noFailures [of w1 "Ping c"] 1(2) by (auto simp: quiet_def)
  have 3: "quiet w2 (release c w2)" "pool (release c w2) = pool w2"
    using release_quiet [of w2 c] 2(2) by (auto simp: quiet_def)
  show ?thesis
    using assms(2) 1 2 3 by (auto simp: testConnection_def intro: quiet_trans)
qed

lemma connect_noFailures:
  assumes "noFailures w"
  shows "\<exists>w'. connect w = (Inr (), w') \<and> quiet w w' \<and> pool w'"
proof (cases "pool w")
  case True
  then show ?thesis using assms by (simp add: quiet_refl connect.simps [of w])
next
  case False
  obtain w1 where 1: "driverCall CreatePool w = (Inr (), w1)" "quiet w w1"
    using driverCall_noFailures [OF assms, of CreatePool] by auto
  have n: "noFailures (w1\<lparr>pool := True\<rparr>)" using 1(2) by (simp add: quiet_def noFailures_def)
  obtain w2 where 2: "testConnection (w1\<lparr>pool := True\<rparr>) = (Inr (), w2)"
      "quiet (w1\<lparr>pool := True\<rparr>) w2" "pool w2"
    using testConnection_noFailures [OF n] by auto
  have "quiet w (w2\<lparr>reconnectAttempts := 0\<rparr>)"
    using 1(2) 2(2) by (simp add: quiet_def noFailures_def)
  then show ?thesis
    using False 1 2 by (simp add: connect.simps [of w])
qed

lemma getConnection_noFailures:
  assumes "noFailures w"
  shows "\<exists>c w'. getConnection w = (Inr c, w') \<and> quiet w w'"
proof -
  obtain w1 where 1: "(if \<not> pool w then connect w else (Inr (), w)) = (Inr (), w1)"
      "quiet w w1" "pool w1"
    using connect_noFailures [OF assms] assms by (cases "pool w") (auto simp: quiet_refl)
  obtain c w2 where 2: "poolGetConnection w1 = (Inr c, w2)" "quiet w1 w2"
    using poolGetConnection_noFailures [of w1] 1(2) by (auto simp: quiet_def)
  show ?thesis
    unfolding getConnection_def 1(1) using 1 2 by (auto intro: quiet_trans)
qed

lemma connectionExecute_noFailures:
  assumes "noFailures w"
  shows "connectionExecute c stmt w =
     (Inr (fst (execute stmt (database w))),
      (emit (Execute c stmt) w)\<lparr>outcomes := tl (outcomes w),
         database := snd (execute stmt (database w))\<rparr>)"
proof -
  have n: "noFailures (emit (Execute c stmt) w)"
    using assms by (simp add: noFailures_def emit_def)
  have e: "outcomes (emit (Execute c stmt) w) = outcomes w" "database (emit (Execute c stmt) w) = database w"
    by (simp_all add: emit_def)
  show ?thesis
    unfolding connectionExecute_def driverCall_def nextOutcome_noFailures [OF n]
    by (simp add: e split: prod.split)
qed

lemma query_noFailures:
  assumes "noFailures w"
  shows "\<exists>w'. query stmt w = (Inr (fst (execute stmt (database w))), w')
     \<and> noFailures w' \<and> database w' = snd (execute stmt (database w))
     \<and> statementsOf (trace w') = statementsOf (trace w) @ [stmt]"
proof -
  obtain c w1 where 1: "getConnection w = (Inr c, w1)" "quiet w w1"
    using getConnection_noFailures [OF assms] by blast
  have n: "noFailures w1" using 1(2) by (simp add: quiet_def)
  show ?thesis
    unfolding query_def 1(1)
    using 1(2) noFailures_tl [OF n]
    by (simp add: connectionExecute_noFailures [OF n]
        release_def emit_def statementsOf_append quiet_def noFailures_def)
qed

lemma acquisitions_append: "acquisitions (a @ b) = acquisitions a @ acquisitions b"
  by (induction a rule: acquisitions.induct) auto

lemma releases_append: "releases (a @ b) = releases a @ releases b"
  by (induction a rule: releases.induct) auto

lemma upt_join: "i \<le> j \<Longrightarrow> j \<le> k \<Longrightarrow> [i..<j] @ [j..<k] = [i..<k]"
  by (metis le_Suc_ex upt_add_eq_append)

lemma unchanged_refl [simp]: "unchanged w w"
  by (simp add: unchanged_def)

lemma balanced_refl [simp]: "balanced w w"
  by (simp add: balanced_def)

lemma sameData_refl [simp]: "sameData w w"
  by (simp add: sameData_def)

lemma unchanged_trans: "unchanged a b \<Longrightarrow> unchanged b c \<Longrightarrow> unchanged a c"
  by (simp add: unchanged_def)

lemma sameData_trans: "sameData a b \<Longrightarrow> sameData b c \<Longrightarrow> sameData a c"
  by (simp add: sameData_def)

lemma unchanged_balanced: "unchanged a b \<Longrightarrow> balanced a b"
  by (simp add: unchanged_def balanced_def)

lemma balanced_trans: "balanced a b \<Longrightarrow> balanced b c \<Longrightarrow> balanced a c"
  by (auto simp: balanced_def upt_join)

lemma balanced_holding: "balanced a b \<Longrightarrow> holding c b d \<Longrightarrow> holding c a d"
  by (auto simp: balanced_def holding_def upt_join simp del: upt_Suc)

lemma holding_unchanged: "holding c a b \<Longrightarrow> unchanged b d \<Longrightarrow> holding c a d"
  by (simp add: holding_def unchanged_def)

lemma holding_release: "holding c a b \<Longrightarrow> balanced a (release c b)"
  by (auto simp: holding_def balanced_def release_def emit_def acquisitions_append releases_append)

lemma sameData_release: "sameData w (release c w)"
  by (simp add: sameData_def release_def emit_def statementsOf_append)

lemma emit_unchanged: "quietEvent ev \<Longrightarrow> unchanged w (emit ev w)"
  by (simp add: unchanged_def emit_def quietEvent_def acquisitions_append releases_append)

lemma emit_sameData: "statementsOf [ev] = [] \<Longrightarrow> sameData w (emit ev w)"
  by (simp add: sameData_def emit_def statementsOf_append)

lemma nextOutcome_same:
  "nextOutcome w = (out, w') \<Longrightarrow> unchanged w w' \<and> sameData w w' \<and> trace w' = trace w
     \<and> pool w' = pool w \<and> reconnectAttempts w' = reconnectAttempts w"
  by (auto simp: nextOutcome_def unchanged_def sameData_def split: list.splits)

lemma driverCall_unchanged:
  assumes "driverCall ev w = (r, w')" "quietEvent ev"
  shows "unchanged w w'"
proof -
  obtain out w1 where o: "nextOutcome (emit ev w) = (out, w1)" by (cases "nextOutcome (emit ev w)")
  have "w' = w1" using assms(1) o by (auto simp: driverCall_def split: outcome.splits)
  then show ?thesis
    using nextOutcome_same [OF o] emit_unchanged [OF assms(2), of w] unchanged_trans by blast
qed

lemma driverCall_sameData:
  assumes "driverCall ev w = (r, w')" "statementsOf [ev] = []"
  shows "sameData w w'"
proof -
  obtain out w1 where o: "nextOutcome (emit ev w) = (out, w1)" by (cases "nextOutcome (emit ev w)")
  have "w' = w1" using assms(1) o by (auto simp: driverCall_def split: outcome.splits)
  then show ?thesis
    using nextOutcome_same [OF o] emit_sameData [OF assms(2), of w] sameData_trans by blast
qed

lemma driverCall_trace:
  assumes "driverCall ev w = (r, w')"
  shows "trace w' = trace w @ [ev] \<and> pool w' = pool w \<and> reconnectAttempts w' = reconnectAttempts w"
proof -
  obtain out w1 where o: "nextOutcome (emit ev w) = (out, w1)" by (cases "nextOutcome (emit ev w)")
  have "w' = w1" using assms(1) o by (auto simp: driverCall_def split: outcome.splits)
  then show ?thesis using nextOutcome_same [OF o] by (simp add: emit_def)
qed

lemma poolGetConnection_Inl:
  "poolGetConnection w = (Inl e, w') \<Longrightarrow> unchanged w w' \<and> sameData w w' \<and> trace w' = trace w"
  by (cases "nextOutcome w")
     (auto simp: poolGetConnection_def Let_def split: outcome.splits dest: nextOutcome_same)

lemma poolGetConnection_Inr:
  assumes "poolGetConnection w = (Inr c, w')"
  shows "holding c w w' \<and> sameData w w' \<and> trace w' = trace w @ [Acquire c]"
proof -
  obtain out w1 where o: "nextOutcome w = (out, w1)" by (cases "nextOutcome w")
  note n = nextOutcome_same [OF o]
  show ?thesis
    using assms o n
    by (cases out) (auto simp: poolGetConnection_def Let_def holding_def unchanged_def sameData_def
        emit_def statementsOf_append acquisitions_append releases_append)
qed

lemma steady_refl [simp]: "steady w w"
  by (simp add: steady_def)

lemma steady_trans: "steady a b \<Longrightarrow> steady b c \<Longrightarrow> steady a c"
  using balanced_trans sameData_trans by (auto simp: steady_def)

lemma driverCall_steady:
  "driverCall ev w = (r, w') \<Longrightarrow> quietEvent ev \<Longrightarrow> statementsOf [ev] = [] \<Longrightarrow> steady w w'"
  using driverCall_unchanged driverCall_sameData unchanged_balanced by (auto simp: steady_def)

lemma testConnection_steady:
  assumes "testConnection w = (r, w')"
  shows "steady w w'"
proof (cases "pool w")
  case False
  then show ?thesis using assms by (auto simp: testConnection_def)
next
  case True
  obtain r1 w1 where g: "poolGetConnection w = (r1, w1)" by (cases "poolGetConnection w")
  show ?thesis
  proof (cases r1)
    case (Inl e)
    then show ?thesis
      using assms True g poolGetConnection_Inl [of w e w1] unchanged_balanced
      by (auto simp: testConnection_def steady_def)
  next
    case (Inr c)
    note a = poolGetConnection_Inr [OF g [unfolded Inr]]
    obtain r2 w2 where p: "driverCall (Ping c) w1 = (r2, w2)" by (cases "driverCall (Ping c) w1")
    have u: "unchanged w1 w2" "sameData w1 w2"
      using driverCall_unchanged [OF p] driverCall_sameData [OF p] by (simp_all add: quietEvent_def)
    have "holding c w w2" using a u holding_unchanged by blast
    then have "balanced w (release c w2)" by (rule holding_release)
    moreover have "sameData w (release c w2)"
      using a u sameData_release [of w2 c] sameData_trans by blast
    moreover have "w' = release c w2"
      using assms True g Inr p by (cases r2) (auto simp: testConnection_def)
    ultimately show ?thesis by (simp add: steady_def)
  qed
qed

lemma steady_pool_update: "steady w (w\<lparr>pool := b\<rparr>)"
  by (simp add: steady_def balanced_def sameData_def)

lemma steady_attempts_update: "steady w (w\<lparr>reconnectAttempts := n\<rparr>)"
  by (simp add: steady_def balanced_def sameData_def)

lemma connect_steady_aux:
  "(\<forall>r w'. connect w = (r, w') \<longrightarrow> steady w w') \<and> True"
  "(\<forall>r w'. handleConnectionError e w0 = (r, w') \<longrightarrow> steady w0 w') \<and> True"
proof (induction w and e w0 rule: connect_handleConnectionError.induct)
  case (1 w)
  show ?case
  proof (intro conjI allI impI TrueI)
    fix r w'
    assume c: "connect w = (r, w')"
    show "steady w w'"
    proof (cases "pool w")
      case True
      then show ?thesis using c by (simp add: connect.simps [of w])
    next
      case False
      note cs = connect.simps [of w]
      obtain r1 w1 where d: "driverCall CreatePool w = (r1, w1)" by (cases "driverCall CreatePool w")
      have s1: "steady w w1" using driverCall_steady [OF d] by (simp add: quietEvent_def)
      show ?thesis
      proof (cases r1)
        case (Inl err)
        show ?thesis
        proof (cases "shouldRetry err")
          case True
          have "handleConnectionError err w1 = (r, w')"
            using c False d Inl True by (simp add: cs)
          then have "steady w1 w'"
            using "1.IH"(1) [OF False d [symmetric] Inl True] by blast
          then show ?thesis using s1 steady_trans by blast
        next
          case f: False
          then show ?thesis using c False d Inl s1 by (simp add: cs)
        qed
      next
        case (Inr u)
        obtain r2 w2 where t: "testConnection (w1\<lparr>pool := True\<rparr>) = (r2, w2)"
          by (cases "testConnection (w1\<lparr>pool := True\<rparr>)")
        have s2: "steady w w2"
          using testConnection_steady [OF t] s1 steady_pool_update [of w1 True] steady_trans
          by blast
        show ?thesis
        proof (cases r2)
          case i2: (Inl err)
          show ?thesis
          proof (cases "shouldRetry err")
            case True
            have "handleConnectionError err w2 = (r, w')"
              using c False d Inr t i2 True by (simp add: cs)
            then have "steady w2 w'"
              using "1.IH"(2) [OF False d [symmetric] Inr t [symmetric] i2 True] by blast
            then show ?thesis using s2 steady_trans by blast
          next
            case f: False
            then show ?thesis using c False d Inr t i2 s2 by (simp add: cs)
          qed
        next
          case r2': (Inr u')
          have "w' = w2\<lparr>reconnectAttempts := 0\<rparr>"
            using c False d Inr t r2' by (simp add: cs)
          then show ?thesis
            using s2 steady_attempts_update [of w2 0] steady_trans by blast
        qed
      qed
    qed
  qed
next
  case (2 error w)
  show ?case
  proof (intro conjI allI impI TrueI)
    fix r w'
    assume h: "handleConnectionError error w = (r, w')"
    show "steady w w'"
    proof (cases "reconnectAttempts w \<ge> maxReconnectAttempts")
      case True
      then show ?thesis using h by (simp add: handleConnectionError.simps [of error w])
    next
      case False
      define w1 where "w1 = w\<lparr>reconnectAttempts := reconnectAttempts w + 1\<rparr>"
      define delay where "delay = reconnectDelay * 2 ^ (reconnectAttempts w1 - 1)"
      have "connect (emit (Sleep delay) w1) = (r, w')"
        using h False by (simp add: handleConnectionError.simps [of error w] w1_def delay_def Let_def)
      then have "steady (emit (Sleep delay) w1) w'"
        using "2.IH" [OF False w1_def delay_def] by blast
      moreover have "steady w1 (emit (Sleep delay) w1)"
        using emit_unchanged [of "Sleep delay" w1] emit_sameData [of "Sleep delay" w1]
          unchanged_balanced by (simp add: steady_def quietEvent_def)
      moreover have "steady w w1"
        unfolding w1_def by (rule steady_attempts_update)
      ultimately show ?thesis using steady_trans by blast
    qed
  qed
qed

lemma connect_steady: "connect w = (r, w') \<Longrightarrow> steady w w'"
  using connect_steady_aux(1) by blast

lemma disconnect_steady:
  assumes "disconnect w = (r, w')"
  shows "steady w w'"
proof (cases "pool w")
  case False
  then show ?thesis using assms by (auto simp: disconnect_def)
next
  case True
  obtain r1 w1 where d: "driverCall EndPool w = (r1, w1)" by (cases "driverCall EndPool w")
  have s: "steady w w1" using driverCall_steady [OF d] by (simp add: quietEvent_def)
  show ?thesis
    using assms True d s steady_pool_update [of w1 False] steady_trans
    by (cases r1) (auto simp: disconnect_def)
qed

lemma reconnect_steady:
  assumes "reconnect w = (r, w')"
  shows "steady w w'"
proof -
  obtain r1 w1 where d: "disconnect w = (r1, w1)" by (cases "disconnect w")
  note s1 = disconnect_steady [OF d]
  show ?thesis
  proof (cases r1)
    case (Inl e)
    then show ?thesis using assms d s1 by (simp add: reconnect_def)
  next
    case (Inr u)
    then have "connect w1 = (r, w')" using assms d by (simp add: reconnect_def)
    then show ?thesis using connect_steady s1 steady_trans by blast
  qed
qed

lemma steady_acquired: "steady a b \<Longrightarrow> acquired c b d \<Longrightarrow> acquired c a d"
  using balanced_holding sameData_trans by (auto simp: steady_def acquired_def)

lemma getConnection_cases:
  assumes "getConnection w = (r, w')"
  shows "case r of Inl e \<Rightarrow> steady w w' | Inr c \<Rightarrow> acquired c w w'"
proof -
  obtain r1 w1 where a: "(if \<not> pool w then connect w else (Inr (), w)) = (r1, w1)"
    by (cases "if \<not> pool w then connect w else (Inr (), w)")
  have s1: "steady w w1"
    using a connect_steady [of w r1 w1] by (cases "pool w") auto
  show ?thesis
  proof (cases r1)
    case (Inl e)
    then show ?thesis using assms a s1 by (auto simp: getConnection_def)
  next
    case (Inr u)
    show ?thesis
    proof (cases "pool w1")
      case False
      then show ?thesis using assms a Inr s1 by (auto simp: getConnection_def)
    next
      case True
      obtain r2 w2 where g: "poolGetConnection w1 = (r2, w2)" by (cases "poolGetConnection w1")
      show ?thesis
      proof (cases r2)
        case c: (Inr c)
        then have "acquired c w1 w2" using poolGetConnection_Inr g by (auto simp: acquired_def)
        then have "acquired c w w2" using s1 steady_acquired by blast
        then show ?thesis using assms a Inr True g c by (auto simp: getConnection_def)
      next
        case e: (Inl e)
        then have "steady w1 w2"
          using poolGetConnection_Inl g unchanged_balanced by (auto simp: steady_def)
        then have s2: "steady w w2" using s1 steady_trans by blast
        show ?thesis
        proof (cases "shouldRetry e")
          case False
          then show ?thesis using assms a Inr True g e s2 by (auto simp: getConnection_def)
        next
          case retry: True
          obtain r3 w3 where rc: "reconnect w2 = (r3, w3)" by (cases "reconnect w2")
          have s3: "steady w w3" using reconnect_steady [OF rc] s2 steady_trans by blast
          show ?thesis
          proof (cases r3)
            case (Inl e')
            then show ?thesis using assms a Inr True g e retry rc s3 by (auto simp: getConnection_def)
          next
            case u3: (Inr u')
            show ?thesis
            proof (cases "pool w3")
              case False
              then show ?thesis
                using assms a Inr True g e retry rc u3 s3 by (auto simp: getConnection_def)
            next
              case p3: True
              have eq: "poolGetConnection w3 = (r, w')"
                using assms a Inr True g e retry rc u3 p3 by (simp add: getConnection_def)
              show ?thesis
              proof (cases r)
                case (Inl e'')
                then have "steady w3 w'"
                  using eq poolGetConnection_Inl unchanged_balanced by (auto simp: steady_def)
                then show ?thesis using Inl s3 steady_trans by auto
              next
                case (Inr c')
                then have "acquired c' w3 w'"
                  using eq poolGetConnection_Inr by (auto simp: acquired_def)
                then show ?thesis using Inr s3 steady_acquired by auto
              qed
            qed
          qed
        qed
      qed
    qed
  qed
qed

lemma getConnection_Inl: "getConnection w = (Inl e, w') \<Longrightarrow> steady w w'"
  using getConnection_cases [of w "Inl e" w'] by simp

lemma getConnection_Inr: "getConnection w = (Inr c, w') \<Longrightarrow> acquired c w w'"
  using getConnection_cases [of w "Inr c" w'] by simp

lemma connectionExecute_unchanged:
  assumes "connectionExecute c stmt w = (r, w')"
  shows "unchanged w w' \<and> (case r of Inl e \<Rightarrow> database w' = database w | Inr res \<Rightarrow> True)"
proof -
  obtain r1 w1 where d: "driverCall (Execute c stmt) w = (r1, w1)"
    by (cases "driverCall (Execute c stmt) w")
  have u: "unchanged w w1" using driverCall_unchanged [OF d] by (simp add: quietEvent_def)
  obtain out w0 where o: "nextOutcome (emit (Execute c stmt) w) = (out, w0)"
    by (cases "nextOutcome (emit (Execute c stmt) w)")
  have db: "database w1 = database w"
    using d o nextOutcome_same [OF o]
    by (auto simp: driverCall_def sameData_def emit_def split: outcome.splits)
  show ?thesis
    using assms d u db
    by (cases r1) (auto simp: connectionExecute_def unchanged_def split: prod.splits)
qed

lemma query_balanced:
  assumes "query stmt w = (r, w')"
  shows "balanced w w' \<and> (case r of Inl e \<Rightarrow> database w' = database w | Inr res \<Rightarrow> True)"
proof -
  obtain r1 w1 where g: "getConnection w = (r1, w1)" by (cases "getConnection w")
  show ?thesis
  proof (cases r1)
    case (Inl e)
    then have "steady w w1" using g getConnection_Inl by blast
    then show ?thesis using assms g Inl by (auto simp: query_def steady_def sameData_def)
  next
    case (Inr c)
    then have a: "holding c w w1" "database w1 = database w"
      using g getConnection_Inr by (auto simp: acquired_def sameData_def)
    obtain r2 w2 where x: "connectionExecute c stmt w1 = (r2, w2)"
      by (cases "connectionExecute c stmt w1")
    note h = connectionExecute_unchanged [OF x]
    have w': "w' = release c w2" "r = r2"
      using assms g Inr x by (cases r2; simp add: query_def)+
    have "holding c w w2" using a(1) h holding_unchanged by blast
    then have "balanced w (release c w2)" by (rule holding_release)
    moreover have "database (release c w2) = database w2"
      by (simp add: release_def emit_def)
    ultimately show ?thesis
      using a(2) h unfolding w' by (cases r2) auto
  qed
qed

lemma scheduledIn_tl [simp]: "scheduledIn k (tl outs) = scheduledIn (Suc k) outs"
  by (cases outs) (simp_all add: scheduledIn_def)

lemma nextOutcome_scheduled:
  "nextOutcome w = (scheduledIn 0 (outcomes w), w\<lparr>outcomes := tl (outcomes w)\<rparr>)"
  by (cases "outcomes w") (simp_all add: nextOutcome_def scheduledIn_def)

lemma driverCall_scheduled:
  "driverCall ev w =
     ((case scheduledIn 0 (outcomes w) of Succeeds \<Rightarrow> Inr () | Fails e \<Rightarrow> Inl e),
      w\<lparr>trace := trace w @ [ev], outcomes := tl (outcomes w)\<rparr>)"
proof -
  have "nextOutcome (emit ev w) =
      (scheduledIn 0 (outcomes w), w\<lparr>trace := trace w @ [ev], outcomes := tl (outcomes w)\<rparr>)"
    using nextOutcome_scheduled [of "emit ev w"] by (simp add: emit_def)
  then show ?thesis
    by (cases "scheduledIn 0 (outcomes w)") (simp_all add: driverCall_def)
qed

lemma rollbackThenThrow_result:
  "\<exists>w'. (rollbackThenThrow c saved e w :: (error + 'a) \<times> world) = (Inl e, w') \<and> unchanged w w' \<and>
     trace w' = trace w @ [Rollback c] @
       (case scheduled 0 w of Succeeds \<Rightarrow> [] | Fails re \<Rightarrow> [LogError ''Failed to rollback transaction''])"
  by (cases "scheduledIn 0 (outcomes w)")
     (simp_all add: rollbackThenThrow_def driverCall_scheduled emit_def unchanged_def
        acquisitions_append releases_append scheduled_def)

lemma transaction_balanced:
  assumes "transaction callback w = (r, w')"
  shows "balanced w w'"
proof -
  obtain r1 w1 where g: "getConnection w = (r1, w1)" by (cases "getConnection w")
  show ?thesis
  proof (cases r1)
    case (Inl e)
    then have "steady w w1" using g getConnection_Inl by blast
    then show ?thesis using assms g Inl by (auto simp: transaction_def steady_def)
  next
    case (Inr c)
    then have a: "holding c w w1"
      using g getConnection_Inr by (auto simp: acquired_def)
    define body where "body =
      (case driverCall (BeginTransaction c) w1 of
         (Inl error, w2) \<Rightarrow> rollbackThenThrow c (rows (database w1)) error w2
       | (Inr u, w2) \<Rightarrow>
           (case callback c (database w2) of
              (Inl error, db) \<Rightarrow>
                rollbackThenThrow c (rows (database w1)) error (emit (Invoke c) w2\<lparr>database := db\<rparr>)
            | (Inr result, db) \<Rightarrow>
                (case driverCall (Commit c) (emit (Invoke c) w2\<lparr>database := db\<rparr>) of
                   (Inl error, w3) \<Rightarrow> rollbackThenThrow c (rows (database w1)) error w3
                 | (Inr u, w3) \<Rightarrow> (Inr result, w3))))"
    obtain r4 w4 where b: "body = (r4, w4)" by (cases body)
    have t: "transaction callback w = (r4, release c w4)"
      using g Inr b by (simp add: transaction_def body_def)
    have u: "unchanged w1 w4"
    proof -
      obtain r2 w2 where d: "driverCall (BeginTransaction c) w1 = (r2, w2)"
        by (cases "driverCall (BeginTransaction c) w1")
      have u2: "unchanged w1 w2" using driverCall_unchanged [OF d] by (simp add: quietEvent_def)
      show ?thesis
      proof (cases r2)
        case (Inl e)
        then show ?thesis
          using b d u2 rollbackThenThrow_result [of c "rows (database w1)" e w2, where 'a = 'a]
            unchanged_trans
          by (auto simp: body_def)
      next
        case u': (Inr u')
        obtain r3 db where cb: "callback c (database w2) = (r3, db)"
          by (cases "callback c (database w2)")
        define w2' where "w2' = emit (Invoke c) w2\<lparr>database := db\<rparr>"
        have u2': "unchanged w1 w2'"
          using u2 by (simp add: w2'_def unchanged_def emit_def acquisitions_append releases_append)
        show ?thesis
        proof (cases r3)
          case (Inl e)
          then show ?thesis
            using b d u' cb u2' rollbackThenThrow_result [of c "rows (database w1)" e w2', where 'a = 'a]
              unchanged_trans
            by (auto simp: body_def w2'_def)
        next
          case (Inr v)
          obtain r5 w5 where cm: "driverCall (Commit c) w2' = (r5, w5)"
            by (cases "driverCall (Commit c) w2'")
          have u5: "unchanged w1 w5"
            using driverCall_unchanged [OF cm] u2' unchanged_trans by (auto simp: quietEvent_def)
          show ?thesis
          proof (cases r5)
            case (Inl e)
            then show ?thesis
              using b d u' cb Inr cm u5
                rollbackThenThrow_result [of c "rows (database w1)" e w5, where 'a = 'a]
                unchanged_trans
              by (auto simp: body_def w2'_def)
          next
            case r5': (Inr u'')
            then show ?thesis
              using b d u' cb Inr cm u5 by (auto simp: body_def w2'_def)
          qed
        qed
      qed
    qed
    have "holding c w w4" using a u holding_unchanged by blast
    then have "balanced w (release c w4)" by (rule holding_release)
    then show ?thesis using assms t by simp
  qed
qed

lemma transaction_commit:
  assumes "getConnection w = (Inr c, w1)" "scheduled 0 w1 = Succeeds"
    "callback c (database w1) = (Inr v, db)" "scheduled 1 w1 = Succeeds"
  shows "\<exists>w'. transaction callback w = (Inr v, w') \<and>
     trace w' = trace w1 @ [BeginTransaction c, Invoke c, Commit c, Release c] \<and>
     database w' = db"
  using assms
  by (simp add: transaction_def driverCall_scheduled release_def emit_def scheduled_def)

lemma transaction_rollback:
  assumes "getConnection w = (Inr c, w1)" "scheduled 0 w1 = Succeeds"
    "callback c (database w1) = (Inl e, db)"
  shows "\<exists>w'. transaction callback w = (Inl e, w') \<and>
     trace w' = trace w1 @ [BeginTransaction c, Invoke c, Rollback c] @
       (case scheduled 1 w1 of Succeeds \<Rightarrow> []
        | Fails re \<Rightarrow> [LogError ''Failed to rollback transaction'']) @ [Release c]"
  using assms
  by (cases "scheduledIn 1 (outcomes w1)")
     (simp_all add: transaction_def driverCall_scheduled rollbackThenThrow_def release_def emit_def
        scheduled_def)

text \<open>
  Claim C5: \<open>transaction(fn)\<close>, once \<open>getConnection\<close> has handed out connection \<open>c\<close>
  and \<open>beginTransaction\<close> has succeeded, invokes the callback with \<open>c\<close>. When the
  callback returns \<open>v\<close> and the commit succeeds, the transaction commits and returns \<open>v\<close>.
  When the callback throws \<open>e\<close>, the transaction rolls back and throws \<open>e\<close>, also when
  the rollback itself fails, which is logged. In both outcomes the last call is the release
  of \<open>c\<close>, after which the pool holds what it held before.
\<close>

theorem transaction_commits_or_rolls_back:
  "getConnection w = (Inr c, wa) \<and> scheduled 0 wa = Succeeds \<longrightarrow>
     held wa = c # held w \<and>
     (callback c (database wa) = (Inr v, db) \<and> scheduled 1 wa = Succeeds \<longrightarrow>
        (\<exists>w'. transaction callback w = (Inr v, w') \<and>
           trace w' = trace wa @ [BeginTransaction c, Invoke c, Commit c, Release c] \<and>
           database w' = db \<and> held w' = held w)) \<and>
     (callback c (database wa) = (Inl e, db) \<longrightarrow>
        (\<exists>w'. transaction callback w = (Inl e, w') \<and>
           trace w' = trace wa @ [BeginTransaction c, Invoke c, Rollback c] @
             (case scheduled 1 wa of Succeeds \<Rightarrow> []
              | Fails re \<Rightarrow> [LogError ''Failed to rollback transaction'']) @ [Release c] \<and>
           held w' = held w))"
proof (intro impI conjI; (elim conjE)?)
  assume g: "getConnection w = (Inr c, wa)" and b: "scheduled 0 wa = Succeeds"
  show "held wa = c # held w"
    using getConnection_Inr [OF g] by (simp add: acquired_def holding_def)
next
  assume g: "getConnection w = (Inr c, wa)" and b: "scheduled 0 wa = Succeeds"
    and cb: "callback c (database wa) = (Inr v, db)" and cm: "scheduled 1 wa = Succeeds"
  obtain w' where t: "transaction callback w = (Inr v, w')"
      "trace w' = trace wa @ [BeginTransaction c, Invoke c, Commit c, Release c]" "database w' = db"
    using transaction_commit [where callback = callback, OF g b cb cm] by blast
  have "held w' = held w"
    using transaction_balanced [OF t(1)] by (simp add: balanced_def)
  then show "\<exists>w'. transaction callback w = (Inr v, w') \<and>
           trace w' = trace wa @ [BeginTransaction c, Invoke c, Commit c, Release c] \<and>
           database w' = db \<and> held w' = held w"
    using t by blast
next
  assume g: "getConnection w = (Inr c, wa)" and b: "scheduled 0 wa = Succeeds"
    and cb: "callback c (database wa) = (Inl e, db)"
  obtain w' where t: "transaction callback w = (Inl e, w')"
      "trace w' = trace wa @ [BeginTransaction c, Invoke c, Rollback c] @
             (case scheduled 1 wa of Succeeds \<Rightarrow> []
              | Fails re \<Rightarrow> [LogError ''Failed to rollback transaction'']) @ [Release c]"
    using transaction_rollback [where callback = callback, OF g b cb] by blast
  have "held w' = held w"
    using transaction_balanced [OF t(1)] by (simp add: balanced_def)
  then show "\<exists>w'. transaction callback w = (Inl e, w') \<and>
           trace w' = trace wa @ [BeginTransaction c, Invoke c, Rollback c] @
             (case scheduled 1 wa of Succeeds \<Rightarrow> []
              | Fails re \<Rightarrow> [LogError ''Failed to rollback transaction'']) @ [Release c] \<and>
           held w' = held w"
    using t by blast
qed

theorem transaction_commits_or_rolls_back_witness:
  "fst (transaction (\<lambda>c db. (Inl (Error (js ''boom'')) :: error + unit, db))
     (freshWorld\<lparr>pool := True, outcomes := [Succeeds, Succeeds, Fails (Error (js ''gone''))]\<rparr>))
   = Inl (Error (js ''boom'')) \<and>
   trace (snd (transaction (\<lambda>c db. (Inl (Error (js ''boom'')) :: error + unit, db))
     (freshWorld\<lparr>pool := True, outcomes := [Succeeds, Succeeds, Fails (Error (js ''gone''))]\<rparr>)))
   = [Acquire 0, BeginTransaction 0, Invoke 0, Rollback 0,
      LogError ''Failed to rollback transaction'', Release 0] \<and>
   held (snd (transaction (\<lambda>c db. (Inl (Error (js ''boom'')) :: error + unit, db))
     (freshWorld\<lparr>pool := True, outcomes := [Succeeds, Succeeds, Fails (Error (js ''gone''))]\<rparr>)))
   = []"
proof -
  let ?w = "freshWorld\<lparr>pool := True, outcomes := [Succeeds, Succeeds, Fails (Error (js ''gone''))]\<rparr>"
  let ?w1 = "freshWorld\<lparr>pool := True, outcomes := [Succeeds, Fails (Error (js ''gone''))],
               nextConnection := 1, held := [0], trace := [Acquire 0]\<rparr>"
  let ?cb = "\<lambda>(c::nat) (db::database). (Inl (Error (js ''boom'')) :: error + unit, db)"
  have g: "getConnection ?w = (Inr 0, ?w1)"
    by (simp add: getConnection_def poolGetConnection_def nextOutcome_def emit_def freshWorld_def)
  have s: "scheduled 0 ?w1 = Succeeds" "scheduled 1 ?w1 = Fails (Error (js ''gone''))"
    by (simp_all add: scheduled_def scheduledIn_def freshWorld_def)
  have f: "trace ?w1 = [Acquire 0]" "held ?w = []"
    "scheduled (Suc 0) ?w1 = Fails (Error (js ''gone''))"
    by (simp_all add: freshWorld_def scheduled_def scheduledIn_def)
  obtain w' where t: "transaction ?cb ?w = (Inl (Error (js ''boom'')), w')"
    "trace w' = trace ?w1 @ [BeginTransaction 0, Invoke 0, Rollback 0] @
       (case scheduled 1 ?w1 of Succeeds \<Rightarrow> []
        | Fails re \<Rightarrow> [LogError ''Failed to rollback transaction'']) @ [Release 0]"
    "held w' = held ?w"
    using transaction_commits_or_rolls_back
      [where w = ?w and c = 0 and wa = ?w1 and callback = ?cb and e = "Error (js ''boom'')"
         and db = "database ?w1"] g s
    by auto
  show ?thesis
    unfolding t(1) using t(2,3) by (simp add: freshWorld_def scheduled_def scheduledIn_def)
qed

text \<open>
  Claim C6: whatever the driver does (every schedule of outcomes, so every exit path:
  normal return, failure to execute the statement, an error thrown by the transaction's
  callback, a failing begin, commit or rollback), \<open>query\<close> and \<open>transaction\<close> release every
  connection they acquired exactly once. The pool holds after the call what it held before,
  no connection is released that is not held, and the connections released during the call
  are the connections acquired during it, each a different one.
\<close>

theorem connection_released_exactly_once:
  "balanced w (snd (query sql w)) \<and> balanced w (snd (transaction callback w))"
  using query_balanced [of sql w "fst (query sql w)" "snd (query sql w)"]
    transaction_balanced [of callback w "fst (transaction callback w)" "snd (transaction callback w)"]
  by simp

theorem connection_released_exactly_once_witness:
  "held (snd (query (SelectById 1)
      (freshWorld\<lparr>outcomes := [Succeeds, Succeeds, Succeeds, Succeeds, Fails (Error (js ''gone''))]\<rparr>))) = [] \<and>
   \<not> doubleRelease (snd (query (SelectById 1)
      (freshWorld\<lparr>outcomes := [Succeeds, Succeeds, Succeeds, Succeeds, Fails (Error (js ''gone''))]\<rparr>)))"
  using connection_released_exactly_once
    [of "freshWorld\<lparr>outcomes := [Succeeds, Succeeds, Succeeds, Succeeds, Fails (Error (js ''gone''))]\<rparr>"
        "SelectById 1" "\<lambda>c db. (Inr (), db)"]
  by (simp add: balanced_def freshWorld_def)

lemma sr: "shouldRetry (Error (js ''connect ECONNREFUSED 127.0.0.1:3306''))"
  by (simp add: shouldRetry_def errorPatterns_def js_def lower_def)

lemma connect_pool_exists: "pool w \<Longrightarrow> connect w = (Inr (), w)"
  by (subst connect.simps) simp

lemma connect_probe_failure:
  assumes "\<not> pool w" "scheduled 0 w = Succeeds" "scheduled 1 w = Fails e" "shouldRetry e"
    "reconnectAttempts w < maxReconnectAttempts"
  shows "connect w =
    (Inr (), w\<lparr>outcomes := tl (tl (outcomes w)), pool := True,
               reconnectAttempts := Suc (reconnectAttempts w),
               trace := trace w @ [CreatePool, Sleep (reconnectDelay * 2 ^ reconnectAttempts w)]\<rparr>)"
proof -
  let ?w1 = "w\<lparr>trace := trace w @ [CreatePool], outcomes := tl (outcomes w)\<rparr>"
  let ?w2 = "w\<lparr>trace := trace w @ [CreatePool], outcomes := tl (tl (outcomes w)), pool := True\<rparr>"
  have 1: "driverCall CreatePool w = (Inr (), ?w1)"
    using assms(2) by (simp add: driverCall_scheduled scheduled_def)
  have 2: "testConnection (?w1\<lparr>pool := True\<rparr>) = (Inl e, ?w2)"
    using assms(3) by (simp add: testConnection_def poolGetConnection_def nextOutcome_scheduled
        scheduled_def)
  have 3: "handleConnectionError e ?w2 =
      connect (w\<lparr>outcomes := tl (tl (outcomes w)), pool := True,
               reconnectAttempts := Suc (reconnectAttempts w),
               trace := trace w @ [CreatePool, Sleep (reconnectDelay * 2 ^ reconnectAttempts w)]\<rparr>)"
    using assms(5) by (subst handleConnectionError.simps) (simp add: emit_def Let_def)
  show ?thesis
    using assms(1,4) by (subst connect.simps) (simp add: 1 2 3 connect_pool_exists)
qed

text \<open>
  When the creation of the pool itself keeps failing with a retryable error, the retries
  are made: before attempt \<open>n\<close> the pause is \<open>reconnectDelay * 2 ^ (n - 1)\<close>, and after the
  fifth retry has failed the terminal error names the five attempts. A successful probe
  resets the counter.
\<close>

lemma connect_create_failure:
  assumes "\<not> pool w" "scheduled 0 w = Fails e" "shouldRetry e"
  shows "connect w = handleConnectionError e (w\<lparr>trace := trace w @ [CreatePool], outcomes := tl (outcomes w)\<rparr>)"
  using assms by (subst connect.simps) (simp add: driverCall_scheduled scheduled_def)

lemma handleConnectionError_retry:
  assumes "reconnectAttempts w < maxReconnectAttempts"
  shows "handleConnectionError e w =
     connect (w\<lparr>reconnectAttempts := Suc (reconnectAttempts w),
               trace := trace w @ [Sleep (reconnectDelay * 2 ^ reconnectAttempts w)]\<rparr>)"
  using assms by (subst handleConnectionError.simps) (simp add: emit_def Let_def)

lemma handleConnectionError_exhausted:
  assumes "maxReconnectAttempts \<le> reconnectAttempts w"
  shows "handleConnectionError e w =
     (Inl (Error (js ''Failed to connect to database after 5 attempts: '' @ message e)), w)"
  using assms
  by (subst handleConnectionError.simps) (simp add: maxReconnectAttempts_def js_def)

lemma connect_probe_success:
  assumes "\<not> pool w" "scheduled 0 w = Succeeds" "scheduled 1 w = Succeeds" "scheduled 2 w = Succeeds"
  shows "\<exists>w'. connect w = (Inr (), w') \<and> pool w' \<and> reconnectAttempts w' = 0 \<and>
     trace w' = trace w @ [CreatePool, Acquire (nextConnection w), Ping (nextConnection w),
                           Release (nextConnection w)]"
  using assms
  by (subst connect.simps)
     (simp add: driverCall_scheduled scheduled_def testConnection_def poolGetConnection_def
        nextOutcome_scheduled release_def emit_def Let_def eval_nat_numeral)

lemma connect_create_failures:
  assumes "\<not> pool w" "shouldRetry e" "reconnectAttempts w \<le> maxReconnectAttempts"
    "outcomes w = replicate (Suc (maxReconnectAttempts - reconnectAttempts w)) (Fails e)"
  shows "connect w =
    (Inl (Error (js ''Failed to connect to database after 5 attempts: '' @ message e)),
     w\<lparr>outcomes := [], reconnectAttempts := maxReconnectAttempts,
       trace := trace w @
         concat (map (\<lambda>n. [CreatePool, Sleep (reconnectDelay * 2 ^ n)])
                     [reconnectAttempts w..<maxReconnectAttempts]) @ [CreatePool]\<rparr>)"
  using assms
proof (induction "maxReconnectAttempts - reconnectAttempts w" arbitrary: w)
  case 0
  then have a: "reconnectAttempts w = maxReconnectAttempts" by simp
  have s: "scheduled 0 w = Fails e"
    using "0.prems"(4) a by (simp add: scheduled_def scheduledIn_def)
  have "connect w = handleConnectionError e (w\<lparr>trace := trace w @ [CreatePool], outcomes := tl (outcomes w)\<rparr>)"
    by (rule connect_create_failure [OF "0.prems"(1) s "0.prems"(2)])
  also have "\<dots> = (Inl (Error (js ''Failed to connect to database after 5 attempts: '' @ message e)),
       w\<lparr>trace := trace w @ [CreatePool], outcomes := tl (outcomes w)\<rparr>)"
    using a by (intro handleConnectionError_exhausted) simp
  finally show ?case
    using "0.prems"(4) a by simp
next
  case (Suc d)
  then have a: "reconnectAttempts w < maxReconnectAttempts"
    and d: "maxReconnectAttempts - reconnectAttempts w = Suc d" by simp_all
  have s: "scheduled 0 w = Fails e"
    using Suc.prems(4) by (simp add: scheduled_def scheduledIn_def)
  let ?w1 = "w\<lparr>trace := trace w @ [CreatePool], outcomes := tl (outcomes w)\<rparr>"
  let ?w2 = "?w1\<lparr>reconnectAttempts := Suc (reconnectAttempts ?w1),
               trace := trace ?w1 @ [Sleep (reconnectDelay * 2 ^ reconnectAttempts ?w1)]\<rparr>"
  have "connect w = handleConnectionError e ?w1"
    by (rule connect_create_failure [OF Suc.prems(1) s Suc.prems(2)])
  also have "\<dots> = connect ?w2"
    using a by (intro handleConnectionError_retry) simp
  also have "\<dots> = (Inl (Error (js ''Failed to connect to database after 5 attempts: '' @ message e)),
     ?w2\<lparr>outcomes := [], reconnectAttempts := maxReconnectAttempts,
       trace := trace ?w2 @
         concat (map (\<lambda>n. [CreatePool, Sleep (reconnectDelay * 2 ^ n)])
                     [reconnectAttempts ?w2..<maxReconnectAttempts]) @ [CreatePool]\<rparr>)"
  proof (rule Suc.hyps(1))
    show "d = maxReconnectAttempts - reconnectAttempts ?w2" using d by simp
    show "\<not> pool ?w2" using Suc.prems(1) by simp
    show "shouldRetry e" by (rule Suc.prems(2))
    show "reconnectAttempts ?w2 \<le> maxReconnectAttempts" using a by simp
    show "outcomes ?w2 = replicate (Suc (maxReconnectAttempts - reconnectAttempts ?w2)) (Fails e)"
      using Suc.prems(4) d by simp
  qed
  finally show ?case
    using a by (simp add: upt_conv_Cons)
qed

lemma connect_budget_exhausted:
  "connect (freshWorld\<lparr>outcomes := replicate 6 (Fails (Error (js ''connect ECONNREFUSED 127.0.0.1:3306'')))\<rparr>)
   = (Inl (Error (js ''Failed to connect to database after 5 attempts: connect ECONNREFUSED 127.0.0.1:3306'')),
      freshWorld\<lparr>reconnectAttempts := 5,
        trace := [CreatePool, Sleep 1000, CreatePool, Sleep 2000, CreatePool, Sleep 4000,
                  CreatePool, Sleep 8000, CreatePool, Sleep 16000, CreatePool]\<rparr>)"
proof -
  let ?e = "Error (js ''connect ECONNREFUSED 127.0.0.1:3306'')"
  let ?w = "freshWorld\<lparr>outcomes := replicate 6 (Fails ?e)\<rparr>"
  have u: "[0..<5] = [0, 1, 2, 3, 4::nat]" by (simp add: upt_conv_Cons)
  have "connect ?w =
    (Inl (Error (js ''Failed to connect to database after 5 attempts: '' @ message ?e)),
     ?w\<lparr>outcomes := [], reconnectAttempts := maxReconnectAttempts,
       trace := trace ?w @
         concat (map (\<lambda>n. [CreatePool, Sleep (reconnectDelay * 2 ^ n)])
                     [reconnectAttempts ?w..<maxReconnectAttempts]) @ [CreatePool]\<rparr>)"
    using sr by (intro connect_create_failures)
      (simp_all add: freshWorld_def maxReconnectAttempts_def)
  then show ?thesis
    by (simp add: freshWorld_def maxReconnectAttempts_def reconnectDelay_def u js_def)
qed

text \<open>
  Claim C4 describes retries which the code does not make when it is the probe that fails.
  On a fresh process whose pool is created and whose first probe fails with a retryable
  error (\<open>connect ECONNREFUSED\<close>), \<open>connect\<close> waits 1000 ms and calls itself; the pool is
  already set, so the second call returns at once. \<open>connect\<close> returns normally: no second
  probe was made, and the attempt counter is left at 1, not reset to zero.
\<close>

theorem connect_probe_failure_returns_unretried:
  "connect (freshWorld\<lparr>outcomes := [Succeeds, Fails (Error (js ''connect ECONNREFUSED 127.0.0.1:3306''))]\<rparr>)
   = (Inr (), freshWorld\<lparr>pool := True, reconnectAttempts := 1, trace := [CreatePool, Sleep 1000]\<rparr>)"
proof -
  let ?e = "Error (js ''connect ECONNREFUSED 127.0.0.1:3306'')"
  let ?w = "freshWorld\<lparr>outcomes := [Succeeds, Fails ?e]\<rparr>"
  have "connect ?w =
    (Inr (), ?w\<lparr>outcomes := tl (tl (outcomes ?w)), pool := True,
               reconnectAttempts := Suc (reconnectAttempts ?w),
               trace := trace ?w @ [CreatePool, Sleep (reconnectDelay * 2 ^ reconnectAttempts ?w)]\<rparr>)"
    using sr by (intro connect_probe_failure [where e = ?e])
       (simp_all add: freshWorld_def scheduled_def scheduledIn_def maxReconnectAttempts_def)
  then show ?thesis by (simp add: freshWorld_def reconnectDelay_def)
qed

section \<open>Properties of the repository and the service\<close>

lemma findById_noFailures:
  assumes "noFailures w" "0 < n"
  shows "\<exists>w'. findById n w =
      (Inr (case filter (\<lambda>r. r_id r = n) (rows (database w)) of
              [] \<Rightarrow> None | r # rs \<Rightarrow> Some (mapRowToEntry r)), w')
     \<and> noFailures w' \<and> database w' = database w
     \<and> statementsOf (trace w') = statementsOf (trace w) @ [SelectById n]"
proof -
  obtain w' where q: "query (SelectById n) w = (Inr (fst (execute (SelectById n) (database w))), w')"
    "noFailures w'" "database w' = snd (execute (SelectById n) (database w))"
    "statementsOf (trace w') = statementsOf (trace w) @ [SelectById n]"
    using query_noFailures [OF assms(1)] by blast
  show ?thesis
    using assms(2) q by (auto simp: findById_def split: list.splits)
qed

lemma deleteById_noFailures:
  assumes "noFailures w" "0 < n"
  shows "\<exists>w'. deleteById n w = (Inr (0 < length (filter (\<lambda>r. r_id r = n) (rows (database w)))), w')
     \<and> noFailures w' \<and> database w' = (database w)\<lparr>rows := filter (\<lambda>r. r_id r \<noteq> n) (rows (database w))\<rparr>
     \<and> statementsOf (trace w') = statementsOf (trace w) @ [DeleteById n]"
proof -
  obtain w' where q: "query (DeleteById n) w = (Inr (fst (execute (DeleteById n) (database w))), w')"
    "noFailures w'" "database w' = snd (execute (DeleteById n) (database w))"
    "statementsOf (trace w') = statementsOf (trace w) @ [DeleteById n]"
    using query_noFailures [OF assms(1)] by blast
  show ?thesis
    using assms(2) q by (auto simp: deleteById_def)
qed

lemma exists_noFailures:
  assumes "noFailures w" "trim s \<noteq> []"
  shows "\<exists>w'. exists (JString s) w =
      (Inr (\<exists>r\<in>set (rows (database w)). sqlEq (collation (database w)) (r_identifier r) (trim s)), w')
     \<and> noFailures w' \<and> database w' = database w
     \<and> statementsOf (trace w') = statementsOf (trace w) @ [CountByIdentifier (trim s)]"
proof -
  obtain w' where q: "query (CountByIdentifier (trim s)) w
        = (Inr (fst (execute (CountByIdentifier (trim s)) (database w))), w')"
    "noFailures w'" "database w' = snd (execute (CountByIdentifier (trim s)) (database w))"
    "statementsOf (trace w') = statementsOf (trace w) @ [CountByIdentifier (trim s)]"
    using query_noFailures [OF assms(1)] by blast
  have s: "s \<noteq> []" using assms(2) by auto
  show ?thesis
    using assms(2) s q by (auto simp: exists_def filter_empty_conv)
qed

text \<open>
  Claim C3: \<open>removeEntry\<close> throws the validation error for every id \<open>\<le> 0\<close>, without
  touching anything. For a positive id, when no call into the driver fails: if no stored
  entry has the id, it returns false and the only statement executed is the lookup by id,
  no delete; if a stored entry has the id, it executes the lookup and then the delete,
  returns true, the delete having removed at least one row, and a \<open>getById\<close> on the same
  id afterwards returns nothing.
\<close>

theorem removeEntry_protocol:
  "(n \<le> 0 \<longrightarrow> removeEntry n w = (Inl (Error (js ''Invalid ID: ID must be a positive number'')), w)) \<and>
   (0 < n \<and> noFailures w \<and> n \<notin> r_id ` set (rows (database w)) \<longrightarrow>
      (\<exists>w'. removeEntry n w = (Inr False, w') \<and> database w' = database w \<and>
         statementsOf (trace w') = statementsOf (trace w) @ [SelectById n])) \<and>
   (0 < n \<and> noFailures w \<and> n \<in> r_id ` set (rows (database w)) \<longrightarrow>
      (\<exists>w'. removeEntry n w = (Inr True, w') \<and>
         statementsOf (trace w') = statementsOf (trace w) @ [SelectById n, DeleteById n] \<and>
         length (rows (database w')) < length (rows (database w)) \<and>
         n \<notin> r_id ` set (rows (database w')) \<and>
         (\<exists>w''. getById n w' = (Inr None, w''))))"
proof (intro conjI impI; (elim conjE)?)
  assume "n \<le> 0"
  then show "removeEntry n w = (Inl (Error (js ''Invalid ID: ID must be a positive number'')), w)"
    by (simp add: removeEntry_def)
next
  assume a: "0 < n" "noFailures w" "n \<notin> r_id ` set (rows (database w))"
  have e: "filter (\<lambda>r. r_id r = n) (rows (database w)) = []"
    using a(3) by (auto simp: filter_empty_conv)
  obtain w' where f: "findById n w = (Inr None, w')" "noFailures w'" "database w' = database w"
    "statementsOf (trace w') = statementsOf (trace w) @ [SelectById n]"
    using findById_noFailures [OF a(2,1)] e by auto
  show "\<exists>w'. removeEntry n w = (Inr False, w') \<and> database w' = database w \<and>
         statementsOf (trace w') = statementsOf (trace w) @ [SelectById n]"
    using a(1) f by (simp add: removeEntry_def)
next
  assume a: "0 < n" "noFailures w" "n \<in> r_id ` set (rows (database w))"
  have ne: "filter (\<lambda>r. r_id r = n) (rows (database w)) \<noteq> []"
    using a(3) by (auto simp: filter_empty_conv)
  then obtain r rs where rr: "filter (\<lambda>r. r_id r = n) (rows (database w)) = r # rs"
    by (cases "filter (\<lambda>r. r_id r = n) (rows (database w))") auto
  obtain w1 where f: "findById n w = (Inr (Some (mapRowToEntry r)), w1)" "noFailures w1"
    "database w1 = database w" "statementsOf (trace w1) = statementsOf (trace w) @ [SelectById n]"
    using findById_noFailures [OF a(2,1)] rr by auto
  obtain w2 where d: "deleteById n w1 = (Inr (0 < length (filter (\<lambda>r. r_id r = n) (rows (database w1)))), w2)"
    "noFailures w2"
    "database w2 = (database w1)\<lparr>rows := filter (\<lambda>r. r_id r \<noteq> n) (rows (database w1))\<rparr>"
    "statementsOf (trace w2) = statementsOf (trace w1) @ [DeleteById n]"
    using deleteById_noFailures [OF f(2) a(1)] by blast
  have r: "removeEntry n w = (Inr True, w2)"
    using a(1) f d rr by (simp add: removeEntry_def)
  have gone: "filter (\<lambda>r. r_id r = n) (rows (database w2)) = []"
    using d(3) by (auto simp: filter_empty_conv)
  obtain w3 where g: "findById n w2 = (Inr None, w3)"
    using findById_noFailures [OF d(2) a(1)] gone by auto
  have fewer: "length (rows (database w2)) < length (rows (database w))"
  proof -
    have "length (filter (\<lambda>r. r_id r \<noteq> n) (rows (database w)))
        + length (filter (\<lambda>r. r_id r = n) (rows (database w))) = length (rows (database w))"
      using sum_length_filter_compl [of "\<lambda>r. r_id r = n" "rows (database w)"] by simp
    then show ?thesis using d(3) f(3) rr by simp
  qed
  show "\<exists>w'. removeEntry n w = (Inr True, w') \<and>
         statementsOf (trace w') = statementsOf (trace w) @ [SelectById n, DeleteById n] \<and>
         length (rows (database w')) < length (rows (database w)) \<and>
         n \<notin> r_id ` set (rows (database w')) \<and>
         (\<exists>w''. getById n w' = (Inr None, w''))"
    using r d f a(1) g fewer by (auto simp: getById_def)
qed

lemma valid_entry_fields:
  assumes "sanitizeBlacklistEntryInput entry = Inr s" "isValid (validateBlacklistEntry s)"
  shows "\<exists>t u. in_identifier s = JString t \<and> trim t = t \<and> t \<noteq> [] \<and>
           in_createdBy s = JString u \<and> trim u = u \<and> u \<noteq> [] \<and>
           in_firstName s = optionalSanitized (in_firstName entry) \<and>
           in_lastName s = optionalSanitized (in_lastName entry) \<and>
           in_identifier s = requiredSanitized (in_identifier entry) \<and>
           in_createdBy s = requiredSanitized (in_createdBy entry)"
proof -
  note eq = sanitizeBlacklistEntryInput_Inr [OF assms(1)]
  obtain t where t: "requiredSanitized (in_identifier entry) = JString t" "trim t = t"
    using requiredSanitized_cases by blast
  obtain u where u: "requiredSanitized (in_createdBy entry) = JString u" "trim u = u"
    using requiredSanitized_cases by blast
  have e: "errors (validateBlacklistEntry s) = []"
    using assms(2) entry_valid_iff by blast
  have it: "in_identifier s = JString t" and iu: "in_createdBy s = JString u"
    using eq t u by simp_all
  have "t \<noteq> []"
    using entry_identifier_empty [of s] e it t(2) by auto
  moreover have "u \<noteq> []"
    using entry_createdBy_empty [of s] e iu u(2) by auto
  ultimately show ?thesis
    using eq t u by simp
qed


lemma startsWith_append: "startsWith (p @ r) p"
  by (induction p) auto

lemma stringIncludes_prefix: "stringIncludes (p @ r) p"
  by (cases "p @ r") (use startsWith_append [of p r] in auto)

lemma js_append: "js (a @ b) = js a @ js b"
  by (simp add: js_def)

lemma duplicateError_recognised:
  "stringIncludes (message (duplicateError v)) (js ''Duplicate entry'')"
proof -
  have "message (duplicateError v) =
      js ''Duplicate entry'' @ (js '': An entry with identifier '' @ [0x22] @ stringOf v
            @ [0x22] @ js '' already exists'')"
    by (simp add: duplicateError_def js_def)
  then show ?thesis
    by (simp only: stringIncludes_prefix)
qed

lemma checkFailed_not_recognised:
  "\<not> stringIncludes (js ''Failed to check for duplicate entry'') (js ''Duplicate entry'')"
  by (simp add: js_def)

lemma exists_Inl:
  assumes "exists v w = (Inl e, w')"
  shows "database w' = database w"
proof (cases "\<exists>s. v = JString s \<and> \<not> (s = [] \<or> length (trim s) = 0)")
  case False
  then show ?thesis using assms by (cases v) (auto simp: exists_def split: if_splits)
next
  case True
  then obtain s where v: "v = JString s" "\<not> (s = [] \<or> length (trim s) = 0)" by blast
  obtain r1 w1 where q: "query (CountByIdentifier (trim s)) w = (r1, w1)"
    by (cases "query (CountByIdentifier (trim s)) w")
  show ?thesis
    using assms v q query_balanced [OF q] by (cases r1) (auto simp: exists_def)
qed

lemma checkDuplicate_sanitized:
  assumes "trim t = t" "t \<noteq> []"
  shows "checkDuplicate (JString t) w =
     (case exists (JString t) w of
        (Inr found, w1) \<Rightarrow> (Inr found, w1)
      | (Inl error, w1) \<Rightarrow> (Inl (Error (js ''Failed to check for duplicate entry'')), w1))"
  using assms by (simp add: checkDuplicate_def)

lemma addEntry_valid:
  assumes "sanitizeBlacklistEntryInput entry = Inr s" "isValid (validateBlacklistEntry s)"
  shows "addEntry entry w =
     (case exists (in_identifier s) w of
        (Inl error, w1) \<Rightarrow> (Inl (Error (js ''Failed to verify entry uniqueness'')), w1)
      | (Inr found, w1) \<Rightarrow>
          if found then (Inl (duplicateError (in_identifier s)), w1)
          else (case create s w1 of
                  (Inr entryId, w2) \<Rightarrow> (Inr entryId, w2)
                | (Inl error, w2) \<Rightarrow> (Inl (Error (js ''Failed to add blacklist entry to database'')), w2)))"
proof -
  obtain t where t: "in_identifier s = JString t" "trim t = t" "t \<noteq> []"
    using valid_entry_fields [OF assms] by blast
  obtain r1 w1 where x: "exists (JString t) w = (r1, w1)" by (cases "exists (JString t) w")
  show ?thesis
    using assms t x duplicateError_recognised [of "JString t"] checkFailed_not_recognised
    by (cases r1)
       (simp_all add: addEntry_def Let_def checkDuplicate_sanitized)
qed


lemma sqlEq_refl: "(\<And>c. eq c c) \<Longrightarrow> sqlEq eq s s"
  by (simp add: sqlEq_def list_all2_refl)

lemma exists_sanitized:
  assumes "noFailures w" "trim t = t" "t \<noteq> []"
  shows "\<exists>w'. exists (JString t) w =
      (Inr (\<exists>r\<in>set (rows (database w)). sqlEq (collation (database w)) (r_identifier r) t), w')
     \<and> noFailures w' \<and> database w' = database w
     \<and> statementsOf (trace w') = statementsOf (trace w) @ [CountByIdentifier t]"
  using exists_noFailures [of w t] assms by simp

lemma addEntry_duplicate:
  assumes "sanitizeBlacklistEntryInput entry = Inr s" "isValid (validateBlacklistEntry s)"
    "noFailures w"
    "\<exists>r\<in>set (rows (database w)).
        sqlEq (collation (database w)) (r_identifier r) (stringOf (in_identifier s))"
  shows "\<exists>w'. addEntry entry w = (Inl (duplicateError (in_identifier s)), w') \<and>
     database w' = database w \<and>
     statementsOf (trace w') = statementsOf (trace w) @ [CountByIdentifier (stringOf (in_identifier s))]"
proof -
  obtain t where t: "in_identifier s = JString t" "trim t = t" "t \<noteq> []"
    using valid_entry_fields [OF assms(1,2)] by blast
  obtain w' where x: "exists (JString t) w = (Inr True, w')" "database w' = database w"
    "statementsOf (trace w') = statementsOf (trace w) @ [CountByIdentifier t]"
    using exists_sanitized [OF assms(3) t(2,3)] assms(4) t(1) by auto
  show ?thesis
    using x t(1) by (simp add: addEntry_valid [OF assms(1,2)])
qed

lemma addEntry_check_failed:
  assumes "sanitizeBlacklistEntryInput entry = Inr s" "isValid (validateBlacklistEntry s)"
    "exists (in_identifier s) w = (Inl e, w1)"
  shows "addEntry entry w = (Inl (Error (js ''Failed to verify entry uniqueness'')), w1) \<and>
     database w1 = database w"
  using assms(3) exists_Inl [OF assms(3)] by (simp add: addEntry_valid [OF assms(1,2)])



lemma sqlLike_percent_only: "sqlLike eq [0x25] n"
  by (induction n) auto

lemma sqlLike_plain_prefix:
  "likePlain t \<Longrightarrow> sqlLike eq (t @ [0x25]) n = startsWithUnder eq n t"
proof (induction t arbitrary: n)
  case Nil
  then show ?case by (simp add: sqlLike_percent_only)
next
  case (Cons p ps)
  then have p: "p \<noteq> 0x25" "p \<noteq> 0x5F" "p \<noteq> 0x5C" and ps: "likePlain ps"
    by (simp_all add: likePlain_def)
  show ?case
  proof (cases n)
    case Nil
    then show ?thesis using p by simp
  next
    case (Cons c cs)
    then show ?thesis using p Cons.IH [OF ps, of cs] by simp
  qed
qed

lemma sqlLike_contains:
  "likePlain t \<Longrightarrow> sqlLike eq ([0x25] @ t @ [0x25]) n = includesUnder eq n t"
proof (induction n)
  case Nil
  then show ?case
    using sqlLike_plain_prefix [of t eq "[]"] by (cases t) auto
next
  case (Cons c cs)
  then show ?case
    using sqlLike_plain_prefix [of t eq "c # cs"] by simp
qed

lemma includesUnder_iff:
  "includesUnder eq n t \<longleftrightarrow> (\<exists>pre mid post. n = pre @ mid @ post \<and> list_all2 eq t mid)"
proof -
  have sw: "\<And>n. startsWithUnder eq n t \<longleftrightarrow> (\<exists>mid post. n = mid @ post \<and> list_all2 eq t mid)"
  proof (induction t)
    case Nil
    then show ?case by simp
  next
    case (Cons p ps)
    show ?case
    proof (cases n)
      case Nil
      then show ?thesis by simp
    next
      case c: (Cons c cs)
      show ?thesis
      proof
        assume "startsWithUnder eq n (p # ps)"
        then have "eq p c" "startsWithUnder eq cs ps" using c by simp_all
        then obtain mid post where "cs = mid @ post" "list_all2 eq ps mid"
          using Cons.IH by blast
        then have "n = (c # mid) @ post \<and> list_all2 eq (p # ps) (c # mid)"
          using c \<open>eq p c\<close> by simp
        then show "\<exists>mid post. n = mid @ post \<and> list_all2 eq (p # ps) mid" by blast
      next
        assume "\<exists>mid post. n = mid @ post \<and> list_all2 eq (p # ps) mid"
        then obtain mid post where m: "n = mid @ post" "list_all2 eq (p # ps) mid" by blast
        then obtain d ds where d: "mid = d # ds" "eq p d" "list_all2 eq ps ds"
          by (auto simp: list_all2_Cons1)
        then have "c = d" "cs = ds @ post" using m c by simp_all
        then show "startsWithUnder eq n (p # ps)"
          using c d Cons.IH [of cs] by auto
      qed
    qed
  qed
  show ?thesis
  proof (induction n)
    case Nil
    then show ?case by (auto simp: list_all2_Nil2)
  next
    case (Cons c cs)
    show ?case
    proof
      assume "includesUnder eq (c # cs) t"
      then consider "startsWithUnder eq (c # cs) t" | "includesUnder eq cs t" by auto
      then show "\<exists>pre mid post. c # cs = pre @ mid @ post \<and> list_all2 eq t mid"
      proof cases
        case 1
        then obtain mid post where "c # cs = mid @ post" "list_all2 eq t mid"
          using sw by blast
        then have "c # cs = [] @ mid @ post \<and> list_all2 eq t mid" by simp
        then show ?thesis by blast
      next
        case 2
        then obtain pre mid post where "cs = pre @ mid @ post" "list_all2 eq t mid"
          using Cons.IH by blast
        then have "c # cs = (c # pre) @ mid @ post \<and> list_all2 eq t mid" by simp
        then show ?thesis by blast
      qed
    next
      assume "\<exists>pre mid post. c # cs = pre @ mid @ post \<and> list_all2 eq t mid"
      then obtain pre mid post where m: "c # cs = pre @ mid @ post" "list_all2 eq t mid" by blast
      show "includesUnder eq (c # cs) t"
      proof (cases pre)
        case Nil
        then have "startsWithUnder eq (c # cs) t" using m sw by auto
        then show ?thesis by simp
      next
        case (Cons d ds)
        then have "cs = ds @ mid @ post" using m by simp
        then have "includesUnder eq cs t" using m(2) Cons.IH by blast
        then show ?thesis by simp
      qed
    qed
  qed
qed

lemma set_orderByCreatedAtDesc [simp]: "set (orderByCreatedAtDesc rs) = set rs"
  by (simp add: orderByCreatedAtDesc_def)

lemma search_firstName:
  assumes "noFailures w" "trim frag \<noteq> []" "length (trim frag) \<le> 100" "likePlain (trim frag)"
  shows "\<exists>es w'. search \<lparr>sc_identifier = JUndefined, sc_firstName = JString frag,
                           sc_lastName = JUndefined\<rparr> w = (Inr es, w') \<and>
     set es = mapRowToEntry ` {r \<in> set (rows (database w)).
        case r_first_name r of None \<Rightarrow> False
        | Some n \<Rightarrow> includesUnder (collation (database w)) n (trim frag)}"
proof -
  let ?c = "\<lparr>sc_identifier = JUndefined, sc_firstName = JString frag, sc_lastName = JUndefined\<rparr>"
  let ?s = "\<lparr>sc_identifier = JUndefined, sc_firstName = JString (trim frag), sc_lastName = JUndefined\<rparr>"
  let ?stmt = "SelectWhere None (Some ([0x25] @ trim frag @ [0x25])) None"
  have f: "frag \<noteq> []" using assms(2) by auto
  have san: "sanitizeSearchCriteria ?c = Inr ?s"
    using assms(2) f by (simp add: sanitizeSearchCriteria_def Let_def)
  have val: "isValid (validateSearchCriteria ?s)"
    using assms(2,3) by (simp add: validateSearchCriteria_def Let_def)
  obtain w' where q: "query ?stmt w = (Inr (fst (execute ?stmt (database w))), w')"
    using query_noFailures [OF assms(1)] by blast
  have s: "search ?c w = (Inr (map mapRowToEntry (rowsOf (fst (execute ?stmt (database w))))), w')"
    using san val q assms(2) by (simp add: search_def Let_def)
  have "set (rowsOf (fst (execute ?stmt (database w)))) = {r \<in> set (rows (database w)).
        case r_first_name r of None \<Rightarrow> False
        | Some n \<Rightarrow> includesUnder (collation (database w)) n (trim frag)}"
    using sqlLike_contains [OF assms(4)]
    by (auto simp: matchesWhere_def split: option.splits)
  then show ?thesis using s by auto
qed

lemma search_lastName:
  assumes "noFailures w" "trim frag \<noteq> []" "length (trim frag) \<le> 100" "likePlain (trim frag)"
  shows "\<exists>es w'. search \<lparr>sc_identifier = JUndefined, sc_firstName = JUndefined,
                           sc_lastName = JString frag\<rparr> w = (Inr es, w') \<and>
     set es = mapRowToEntry ` {r \<in> set (rows (database w)).
        case r_last_name r of None \<Rightarrow> False
        | Some n \<Rightarrow> includesUnder (collation (database w)) n (trim frag)}"
proof -
  let ?c = "\<lparr>sc_identifier = JUndefined, sc_firstName = JUndefined, sc_lastName = JString frag\<rparr>"
  let ?s = "\<lparr>sc_identifier = JUndefined, sc_firstName = JUndefined, sc_lastName = JString (trim frag)\<rparr>"
  let ?stmt = "SelectWhere None None (Some ([0x25] @ trim frag @ [0x25]))"
  have f: "frag \<noteq> []" using assms(2) by auto
  have san: "sanitizeSearchCriteria ?c = Inr ?s"
    using assms(2) f by (simp add: sanitizeSearchCriteria_def Let_def)
  have val: "isValid (validateSearchCriteria ?s)"
    using assms(2,3) by (simp add: validateSearchCriteria_def Let_def)
  obtain w' where q: "query ?stmt w = (Inr (fst (execute ?stmt (database w))), w')"
    using query_noFailures [OF assms(1)] by blast
  have s: "search ?c w = (Inr (map mapRowToEntry (rowsOf (fst (execute ?stmt (database w))))), w')"
    using san val q assms(2) by (simp add: search_def Let_def)
  have "set (rowsOf (fst (execute ?stmt (database w)))) = {r \<in> set (rows (database w)).
        case r_last_name r of None \<Rightarrow> False
        | Some n \<Rightarrow> includesUnder (collation (database w)) n (trim frag)}"
    using sqlLike_contains [OF assms(4)]
    by (auto simp: matchesWhere_def split: option.splits)
  then show ?thesis using s by auto
qed

lemma exampleWorld_facts:
  "noFailures exampleWorld" "keysWellFormed (database exampleWorld)"
  "rows (database exampleWorld) =
     [\<lparr>r_id = 1, r_identifier = js ''0898765432'', r_first_name = Some (js ''Johnson''),
       r_last_name = Some (js ''Doe''), r_created_at = 0, r_created_by = js ''U1''\<rparr>]"
  "collation (database exampleWorld) = unicode_ci"
  by (simp_all add: exampleWorld_def freshWorld_def noFailures_def keysWellFormed_def)


lemma unicode_ci_refl: "unicode_ci c c"
  by (simp add: unicode_ci_def)

text \<open>
  Claim C1, as stated, fails for an input that does not pass validation: the identifier is
  stored, yet the error is the validation error, since validation runs before the
  duplicate check.
\<close>

theorem addEntry_invalid_input_counterexample:
  "js ''0898765432'' \<in> r_identifier ` set (rows (database exampleWorld)) \<and>
   addEntry \<lparr>in_identifier = JString (js ''0898765432''), in_firstName = JUndefined,
             in_lastName = JUndefined, in_createdBy = JString (js ''  '')\<rparr> exampleWorld
   = (Inl (Error (js ''Validation failed: CreatedBy cannot be empty'')), exampleWorld)"
proof -
  have t: "trim (js ''0898765432'') = js ''0898765432''" "trim (js ''  '') = []"
    "js ''0898765432'' \<noteq> []" "js ''  '' \<noteq> []"
    by (simp_all add: js_def trim_def isWhiteSpace_def)
  have s: "sanitizeBlacklistEntryInput
      \<lparr>in_identifier = JString (js ''0898765432''), in_firstName = JUndefined,
       in_lastName = JUndefined, in_createdBy = JString (js ''  '')\<rparr>
    = Inr \<lparr>in_identifier = JString (js ''0898765432''), in_firstName = JUndefined,
       in_lastName = JUndefined, in_createdBy = JString []\<rparr>"
    by (simp add: sanitizeBlacklistEntryInput_def Let_def t)
  have l: "length (js ''0898765432'') = 10" by (simp add: js_def)
  have v: "validateBlacklistEntry \<lparr>in_identifier = JString (js ''0898765432''), in_firstName = JUndefined,
       in_lastName = JUndefined, in_createdBy = JString []\<rparr>
     = \<lparr>isValid = False, errors = [''CreatedBy cannot be empty'']\<rparr>"
    by (simp add: validateBlacklistEntry_def Let_def t l)
  show ?thesis
    by (simp add: addEntry_def s v exampleWorld_facts js_append [symmetric])
qed

lemma entryA:
  "sanitizeBlacklistEntryInput
      \<lparr>in_identifier = JString (js ''0898765432''), in_firstName = JUndefined,
       in_lastName = JUndefined, in_createdBy = JString (js ''U2'')\<rparr>
    = Inr \<lparr>in_identifier = JString (js ''0898765432''), in_firstName = JUndefined,
       in_lastName = JUndefined, in_createdBy = JString (js ''U2'')\<rparr>"
  "isValid (validateBlacklistEntry \<lparr>in_identifier = JString (js ''0898765432''), in_firstName = JUndefined,
       in_lastName = JUndefined, in_createdBy = JString (js ''U2'')\<rparr>)"
proof -
  have t: "trim (js ''0898765432'') = js ''0898765432''" "trim (js ''U2'') = js ''U2''"
    "js ''0898765432'' \<noteq> []" "js ''U2'' \<noteq> []"
    "length (js ''0898765432'') = 10" "length (js ''U2'') = 2"
    by (simp_all add: js_def trim_def isWhiteSpace_def)
  show "sanitizeBlacklistEntryInput
      \<lparr>in_identifier = JString (js ''0898765432''), in_firstName = JUndefined,
       in_lastName = JUndefined, in_createdBy = JString (js ''U2'')\<rparr>
    = Inr \<lparr>in_identifier = JString (js ''0898765432''), in_firstName = JUndefined,
       in_lastName = JUndefined, in_createdBy = JString (js ''U2'')\<rparr>"
    by (simp add: sanitizeBlacklistEntryInput_def Let_def t)
  show "isValid (validateBlacklistEntry \<lparr>in_identifier = JString (js ''0898765432''), in_firstName = JUndefined,
       in_lastName = JUndefined, in_createdBy = JString (js ''U2'')\<rparr>)"
    by (simp add: validateBlacklistEntry_def Let_def t)
qed


text \<open>
  Claim C1, amended: for every input that passes validation after sanitization, if a
  stored identifier equals the sanitized identifier under the comparison of the database
  and no call into the driver fails, \<open>addEntry\<close> throws the duplicate-entry error, whose
  message contains \<open>Duplicate entry\<close>; the only statement executed is the count by
  identifier and the database is left as it was. If instead the existence check of the
  repository throws, for whatever reason, \<open>addEntry\<close> throws the distinct error
  \<open>Failed to verify entry uniqueness\<close>, and the database is left as it was.
\<close>

theorem addEntry_duplicate_check:
  "sanitizeBlacklistEntryInput entry = Inr s \<and> isValid (validateBlacklistEntry s) \<longrightarrow>
     (noFailures w \<and>
      (\<exists>r\<in>set (rows (database w)).
          sqlEq (collation (database w)) (r_identifier r) (stringOf (in_identifier s))) \<longrightarrow>
        (\<exists>w'. addEntry entry w = (Inl (duplicateError (in_identifier s)), w') \<and>
           stringIncludes (message (duplicateError (in_identifier s))) (js ''Duplicate entry'') \<and>
           database w' = database w \<and>
           statementsOf (trace w') =
             statementsOf (trace w) @ [CountByIdentifier (stringOf (in_identifier s))])) \<and>
     (\<forall>e w1. exists (in_identifier s) w = (Inl e, w1) \<longrightarrow>
        addEntry entry w = (Inl (Error (js ''Failed to verify entry uniqueness'')), w1) \<and>
        database w1 = database w)"
  using addEntry_duplicate [of entry s w] addEntry_check_failed [of entry s w]
    duplicateError_recognised [of "in_identifier s"]
  by blast

lemma entryA_exists_fails:
  "exists (JString (js ''0898765432''))
     (exampleWorld\<lparr>pool := True, outcomes := [Succeeds, Fails (Error (js ''Query timeout''))]\<rparr>)
   = (Inl (Error (js ''Failed to check blacklist entry existence'')),
      exampleWorld\<lparr>pool := True, outcomes := [], nextConnection := 1,
        trace := [Acquire 0, Execute 0 (CountByIdentifier (js ''0898765432'')), Release 0]\<rparr>)"
proof -
  have t: "trim (js ''0898765432'') = js ''0898765432''" "js ''0898765432'' \<noteq> []"
    by (simp_all add: js_def trim_def isWhiteSpace_def)
  show ?thesis
    by (simp add: exists_def t query_def getConnection_def poolGetConnection_def
        connectionExecute_def driverCall_def nextOutcome_def emit_def release_def
        exampleWorld_def freshWorld_def)
qed

theorem addEntry_duplicate_check_witness:
  "fst (addEntry \<lparr>in_identifier = JString (js ''0898765432''), in_firstName = JUndefined,
          in_lastName = JUndefined, in_createdBy = JString (js ''U2'')\<rparr> exampleWorld)
     = Inl (duplicateError (JString (js ''0898765432''))) \<and>
   database (snd (addEntry \<lparr>in_identifier = JString (js ''0898765432''), in_firstName = JUndefined,
          in_lastName = JUndefined, in_createdBy = JString (js ''U2'')\<rparr> exampleWorld))
     = database exampleWorld \<and>
   fst (addEntry \<lparr>in_identifier = JString (js ''0898765432''), in_firstName = JUndefined,
          in_lastName = JUndefined, in_createdBy = JString (js ''U2'')\<rparr>
        (exampleWorld\<lparr>pool := True, outcomes := [Succeeds, Fails (Error (js ''Query timeout''))]\<rparr>))
     = Inl (Error (js ''Failed to verify entry uniqueness''))"
proof -
  let ?e = "\<lparr>in_identifier = JString (js ''0898765432''), in_firstName = JUndefined,
          in_lastName = JUndefined, in_createdBy = JString (js ''U2'')\<rparr>"
  have "sqlEq unicode_ci (js ''0898765432'') (js ''0898765432'')"
    by (rule sqlEq_refl) (rule unicode_ci_refl)
  then have p: "\<exists>r\<in>set (rows (database exampleWorld)).
        sqlEq (collation (database exampleWorld)) (r_identifier r) (stringOf (in_identifier ?e))"
    by (simp add: exampleWorld_facts)
  have 1: "\<exists>w'. addEntry ?e exampleWorld = (Inl (duplicateError (in_identifier ?e)), w') \<and>
       database w' = database exampleWorld"
    using addEntry_duplicate_check [of ?e ?e exampleWorld] entryA exampleWorld_facts(1) p
    by blast
  have 2: "addEntry ?e (exampleWorld\<lparr>pool := True, outcomes := [Succeeds, Fails (Error (js ''Query timeout''))]\<rparr>)
       = (Inl (Error (js ''Failed to verify entry uniqueness'')),
          exampleWorld\<lparr>pool := True, outcomes := [], nextConnection := 1,
            trace := [Acquire 0, Execute 0 (CountByIdentifier (js ''0898765432'')), Release 0]\<rparr>)"
    using addEntry_duplicate_check
      [of ?e ?e "exampleWorld\<lparr>pool := True, outcomes := [Succeeds, Fails (Error (js ''Query timeout''))]\<rparr>"]
      entryA entryA_exists_fails
    by simp
  show ?thesis using 1 2 by auto
qed




theorem removeEntry_protocol_witness:
  "removeEntry 0 exampleWorld
     = (Inl (Error (js ''Invalid ID: ID must be a positive number'')), exampleWorld) \<and>
   fst (removeEntry 7 exampleWorld) = Inr False \<and>
   statementsOf (trace (snd (removeEntry 7 exampleWorld))) = [SelectById 7] \<and>
   fst (removeEntry 1 exampleWorld) = Inr True \<and>
   statementsOf (trace (snd (removeEntry 1 exampleWorld))) = [SelectById 1, DeleteById 1] \<and>
   fst (getById 1 (snd (removeEntry 1 exampleWorld))) = Inr None"
proof -
  have tr: "trace exampleWorld = []" by (simp add: exampleWorld_def freshWorld_def)
  have a: "removeEntry 0 exampleWorld
     = (Inl (Error (js ''Invalid ID: ID must be a positive number'')), exampleWorld)"
    using removeEntry_protocol [of 0 exampleWorld] by simp
  have b: "\<exists>w'. removeEntry 7 exampleWorld = (Inr False, w') \<and>
      statementsOf (trace w') = statementsOf (trace exampleWorld) @ [SelectById 7]"
    using removeEntry_protocol [of 7 exampleWorld] exampleWorld_facts by auto
  have c: "\<exists>w'. removeEntry 1 exampleWorld = (Inr True, w') \<and>
      statementsOf (trace w') = statementsOf (trace exampleWorld) @ [SelectById 1, DeleteById 1] \<and>
      (\<exists>w''. getById 1 w' = (Inr None, w''))"
    using removeEntry_protocol [of 1 exampleWorld] exampleWorld_facts by auto
  show ?thesis using a b c tr by auto
qed

lemma search_valid:
  assumes "noFailures w" "sanitizeSearchCriteria c = Inr s" "isValid (validateSearchCriteria s)"
  shows "fst (search c w) =
    Inr (map mapRowToEntry (rowsOf (fst (execute
      (SelectWhere
         (if truthy (sc_identifier s) then Some (stringOf (sc_identifier s)) else None)
         (if truthy (sc_firstName s) then Some ([0x25] @ stringOf (sc_firstName s) @ [0x25]) else None)
         (if truthy (sc_lastName s) then Some ([0x25] @ stringOf (sc_lastName s) @ [0x25]) else None))
      (database w)))))"
proof -
  let ?stmt = "SelectWhere
         (if truthy (sc_identifier s) then Some (stringOf (sc_identifier s)) else None)
         (if truthy (sc_firstName s) then Some ([0x25] @ stringOf (sc_firstName s) @ [0x25]) else None)
         (if truthy (sc_lastName s) then Some ([0x25] @ stringOf (sc_lastName s) @ [0x25]) else None)"
  obtain w' where q: "query ?stmt w = (Inr (fst (execute ?stmt (database w))), w')"
    using query_noFailures [OF assms(1)] by blast
  show ?thesis
    using assms(2,3) q by (simp add: search_def Let_def)
qed

text \<open>
  Claim C7, amended: for every name fragment that, once trimmed, is not empty, has at most
  100 code units and holds none of \<open>%\<close>, \<open>_\<close> and the backslash, and when no call into
  the driver fails, a search by first name alone (or by last name alone) returns exactly the
  stored entries whose first name (last name) is not null and contains the trimmed fragment,
  the characters compared under the collation of the table. The table is created with a
  case-insensitive collation, so the match ignores letter case; a first name \<open>Johnson\<close> is
  returned by a search for \<open>John\<close>.
\<close>

theorem name_search_matches_under_collation:
  "noFailures w \<and> trim frag \<noteq> [] \<and> length (trim frag) \<le> 100 \<and> likePlain (trim frag) \<longrightarrow>
     (\<exists>es w'. search \<lparr>sc_identifier = JUndefined, sc_firstName = JString frag,
                       sc_lastName = JUndefined\<rparr> w = (Inr es, w') \<and>
        set es = mapRowToEntry ` {r \<in> set (rows (database w)).
          case r_first_name r of None \<Rightarrow> False
          | Some n \<Rightarrow> includesUnder (collation (database w)) n (trim frag)}) \<and>
     (\<exists>es w'. search \<lparr>sc_identifier = JUndefined, sc_firstName = JUndefined,
                       sc_lastName = JString frag\<rparr> w = (Inr es, w') \<and>
        set es = mapRowToEntry ` {r \<in> set (rows (database w)).
          case r_last_name r of None \<Rightarrow> False
          | Some n \<Rightarrow> includesUnder (collation (database w)) n (trim frag)})"
  using search_firstName [of w frag] search_lastName [of w frag] by blast

lemma johnson_entry:
  "mapRowToEntry \<lparr>r_id = 1, r_identifier = js ''0898765432'', r_first_name = Some (js ''Johnson''),
       r_last_name = Some (js ''Doe''), r_created_at = 0, r_created_by = js ''U1''\<rparr>
   = \<lparr>e_id = 1, e_identifier = js ''0898765432'', e_firstName = JString (js ''Johnson''),
      e_lastName = JString (js ''Doe''), e_createdAt = 0, e_createdBy = js ''U1''\<rparr>"
  by (simp add: mapRowToEntry_def js_def)

lemma like_john: "sqlLike unicode_ci (js ''%john%'') (js ''Johnson'')"
  by (simp add: js_def unicode_ci_def lower_def)

lemma like_wild: "sqlLike unicode_ci (js ''%J_hn%'') (js ''Johnson'')"
  by (simp add: js_def unicode_ci_def lower_def)

lemma criteria_name:
  "sanitizeSearchCriteria \<lparr>sc_identifier = JUndefined, sc_firstName = JString (js ''john''),
       sc_lastName = JUndefined\<rparr>
   = Inr \<lparr>sc_identifier = JUndefined, sc_firstName = JString (js ''john''), sc_lastName = JUndefined\<rparr>"
  "isValid (validateSearchCriteria \<lparr>sc_identifier = JUndefined, sc_firstName = JString (js ''john''),
       sc_lastName = JUndefined\<rparr>)"
  "sanitizeSearchCriteria \<lparr>sc_identifier = JUndefined, sc_firstName = JString (js ''J_hn''),
       sc_lastName = JUndefined\<rparr>
   = Inr \<lparr>sc_identifier = JUndefined, sc_firstName = JString (js ''J_hn''), sc_lastName = JUndefined\<rparr>"
  "isValid (validateSearchCriteria \<lparr>sc_identifier = JUndefined, sc_firstName = JString (js ''J_hn''),
       sc_lastName = JUndefined\<rparr>)"
proof -
  have t: "trim (js ''john'') = js ''john''" "js ''john'' \<noteq> []" "length (js ''john'') = 4"
    "trim (js ''J_hn'') = js ''J_hn''" "js ''J_hn'' \<noteq> []" "length (js ''J_hn'') = 4"
    by (simp_all add: js_def trim_def isWhiteSpace_def)
  show "sanitizeSearchCriteria \<lparr>sc_identifier = JUndefined, sc_firstName = JString (js ''john''),
       sc_lastName = JUndefined\<rparr>
   = Inr \<lparr>sc_identifier = JUndefined, sc_firstName = JString (js ''john''), sc_lastName = JUndefined\<rparr>"
    by (simp add: sanitizeSearchCriteria_def Let_def t)
  show "isValid (validateSearchCriteria \<lparr>sc_identifier = JUndefined, sc_firstName = JString (js ''john''),
       sc_lastName = JUndefined\<rparr>)"
    by (simp add: validateSearchCriteria_def Let_def t)
  show "sanitizeSearchCriteria \<lparr>sc_identifier = JUndefined, sc_firstName = JString (js ''J_hn''),
       sc_lastName = JUndefined\<rparr>
   = Inr \<lparr>sc_identifier = JUndefined, sc_firstName = JString (js ''J_hn''), sc_lastName = JUndefined\<rparr>"
    by (simp add: sanitizeSearchCriteria_def Let_def t)
  show "isValid (validateSearchCriteria \<lparr>sc_identifier = JUndefined, sc_firstName = JString (js ''J_hn''),
       sc_lastName = JUndefined\<rparr>)"
    by (simp add: validateSearchCriteria_def Let_def t)
qed

text \<open>
  Claim C7, as stated, fails on both counts. With the collation of the table, a search for
  \<open>john\<close> returns the entry whose first name is \<open>Johnson\<close>, which does not contain
  \<open>john\<close> in that case of the letters; and the fragment goes into the \<open>LIKE\<close> pattern
  as it is, so a search for \<open>J_hn\<close> returns that entry too.
\<close>

theorem name_search_case_and_wildcard_counterexample:
  "fst (search \<lparr>sc_identifier = JUndefined, sc_firstName = JString (js ''john''),
                 sc_lastName = JUndefined\<rparr> exampleWorld)
     = Inr [\<lparr>e_id = 1, e_identifier = js ''0898765432'', e_firstName = JString (js ''Johnson''),
             e_lastName = JString (js ''Doe''), e_createdAt = 0, e_createdBy = js ''U1''\<rparr>] \<and>
   \<not> stringIncludes (js ''Johnson'') (js ''john'') \<and>
   fst (search \<lparr>sc_identifier = JUndefined, sc_firstName = JString (js ''J_hn''),
                 sc_lastName = JUndefined\<rparr> exampleWorld)
     = Inr [\<lparr>e_id = 1, e_identifier = js ''0898765432'', e_firstName = JString (js ''Johnson''),
             e_lastName = JString (js ''Doe''), e_createdAt = 0, e_createdBy = js ''U1''\<rparr>] \<and>
   \<not> stringIncludes (js ''Johnson'') (js ''J_hn'')"
proof -
  have p: "[0x25] @ js ''john'' @ [0x25] = js ''%john%''" "[0x25] @ js ''J_hn'' @ [0x25] = js ''%J_hn%''"
    "js ''john'' \<noteq> []" "js ''J_hn'' \<noteq> []"
    by (simp_all add: js_def)
  have n: "\<not> stringIncludes (js ''Johnson'') (js ''john'')" "\<not> stringIncludes (js ''Johnson'') (js ''J_hn'')"
    by (simp_all add: js_def)
  have a: "fst (search \<lparr>sc_identifier = JUndefined, sc_firstName = JString (js ''john''),
                 sc_lastName = JUndefined\<rparr> exampleWorld)
     = Inr [\<lparr>e_id = 1, e_identifier = js ''0898765432'', e_firstName = JString (js ''Johnson''),
             e_lastName = JString (js ''Doe''), e_createdAt = 0, e_createdBy = js ''U1''\<rparr>]"
    unfolding search_valid [OF exampleWorld_facts(1) criteria_name(1,2)]
    by (simp add: exampleWorld_facts matchesWhere_def orderByCreatedAtDesc_def p like_john
        johnson_entry del: append.simps)
  have b: "fst (search \<lparr>sc_identifier = JUndefined, sc_firstName = JString (js ''J_hn''),
                 sc_lastName = JUndefined\<rparr> exampleWorld)
     = Inr [\<lparr>e_id = 1, e_identifier = js ''0898765432'', e_firstName = JString (js ''Johnson''),
             e_lastName = JString (js ''Doe''), e_createdAt = 0, e_createdBy = js ''U1''\<rparr>]"
    unfolding search_valid [OF exampleWorld_facts(1) criteria_name(3,4)]
    by (simp add: exampleWorld_facts matchesWhere_def orderByCreatedAtDesc_def p like_wild
        johnson_entry del: append.simps)
  show ?thesis using a b n by simp
qed

theorem name_search_matches_under_collation_witness:
  "\<exists>es w'. search \<lparr>sc_identifier = JUndefined, sc_firstName = JString (js ''John''),
                    sc_lastName = JUndefined\<rparr> exampleWorld = (Inr es, w') \<and>
     set es = {\<lparr>e_id = 1, e_identifier = js ''0898765432'', e_firstName = JString (js ''Johnson''),
               e_lastName = JString (js ''Doe''), e_createdAt = 0, e_createdBy = js ''U1''\<rparr>}"
proof -
  have t: "trim (js ''John'') = js ''John''" "js ''John'' \<noteq> []" "length (js ''John'') = 4"
    "likePlain (js ''John'')"
    by (simp_all add: js_def trim_def isWhiteSpace_def likePlain_def)
  have i: "includesUnder unicode_ci (js ''Johnson'') (js ''John'')"
    by (simp add: js_def unicode_ci_def lower_def)
  have "{r \<in> set (rows (database exampleWorld)).
          case r_first_name r of None \<Rightarrow> False
          | Some n \<Rightarrow> includesUnder (collation (database exampleWorld)) n (js ''John'')}
      = {\<lparr>r_id = 1, r_identifier = js ''0898765432'', r_first_name = Some (js ''Johnson''),
       r_last_name = Some (js ''Doe''), r_created_at = 0, r_created_by = js ''U1''\<rparr>}"
    using i by (auto simp: exampleWorld_facts)
  then have s: "mapRowToEntry ` {r \<in> set (rows (database exampleWorld)).
          case r_first_name r of None \<Rightarrow> False
          | Some n \<Rightarrow> includesUnder (collation (database exampleWorld)) n (trim (js ''John''))}
      = {\<lparr>e_id = 1, e_identifier = js ''0898765432'', e_firstName = JString (js ''Johnson''),
               e_lastName = JString (js ''Doe''), e_createdAt = 0, e_createdBy = js ''U1''\<rparr>}"
    unfolding t(1) using johnson_entry by simp
  have h: "noFailures exampleWorld \<and> trim (js ''John'') \<noteq> [] \<and> length (trim (js ''John'')) \<le> 100
      \<and> likePlain (trim (js ''John''))"
    using t exampleWorld_facts(1) by simp
  obtain es w' where r: "search \<lparr>sc_identifier = JUndefined, sc_firstName = JString (js ''John''),
                    sc_lastName = JUndefined\<rparr> exampleWorld = (Inr es, w')"
    "set es = mapRowToEntry ` {r \<in> set (rows (database exampleWorld)).
          case r_first_name r of None \<Rightarrow> False
          | Some n \<Rightarrow> includesUnder (collation (database exampleWorld)) n (trim (js ''John''))}"
    using name_search_matches_under_collation [of exampleWorld "js ''John''"] h by blast
  show ?thesis
    using r s by (intro exI [of _ es] exI [of _ w']) simp
qed

end
